theory Spec2Isabelle
  imports Main
begin

section \<open>Go values: strings as byte lists, run-time panics as values\<close>

text \<open>
  A Go \<open>string\<close> is a sequence of bytes: \<open>len\<close> counts bytes and \<open>s[i]\<close> reads
  one byte, so a string is a \<open>char list\<close>. Indexing outside \<open>0 \<le> i < len(s)\<close> and
  slicing outside \<open>0 \<le> lo \<le> hi \<le> len(s)\<close> raise a run-time panic; both are results
  of the model. Go's \<open>int\<close> is modelled by \<open>int\<close>: every index computed by the parsers
  is bounded by the length of the line, so no arithmetic on indices wraps.
\<close>

datatype panic = IndexOutOfRange | SliceOutOfRange

definition and_then :: "panic + 'a \<Rightarrow> ('a \<Rightarrow> panic + 'b) \<Rightarrow> panic + 'b" where
  "and_then m f = (case m of Inl e \<Rightarrow> Inl e | Inr x \<Rightarrow> f x)"

definition len :: "string \<Rightarrow> int" where
  "len s = int (length s)"

text \<open>\<open>s[i]\<close>\<close>

definition at :: "string \<Rightarrow> int \<Rightarrow> panic + char" where
  "at s i = (if 0 \<le> i \<and> i < len s then Inr (s ! nat i) else Inl IndexOutOfRange)"

text \<open>\<open>s[lo:hi]\<close>, \<open>s[lo:]\<close> and \<open>s[:hi]\<close>\<close>

definition slice :: "string \<Rightarrow> int \<Rightarrow> int \<Rightarrow> panic + string" where
  "slice s lo hi =
     (if 0 \<le> lo \<and> lo \<le> hi \<and> hi \<le> len s
      then Inr (take (nat (hi - lo)) (drop (nat lo) s))
      else Inl SliceOutOfRange)"

definition slice_from :: "string \<Rightarrow> int \<Rightarrow> panic + string" where
  "slice_from s lo = slice s lo (len s)"

definition slice_to :: "string \<Rightarrow> int \<Rightarrow> panic + string" where
  "slice_to s hi = slice s 0 hi"

definition byte :: "char \<Rightarrow> nat" where
  "byte c = of_char c"

section \<open>The parts of Go's standard library that the parsers call\<close>

subsection \<open>strconv\<close>

definition is_digit :: "char \<Rightarrow> bool" where
  "is_digit c = (48 \<le> byte c \<and> byte c \<le> 57)"

text \<open>
  The errors of \<open>strconv\<close>: \<open>ErrSyntax\<close> and \<open>ErrRange\<close>.
\<close>

datatype num_error = ErrSyntax | ErrRange

text \<open>
  The loop of \<open>strconv.ParseUint(s, 10, bits)\<close> over the bytes of \<open>s\<close>, from left to
  right, with \<open>n\<close> the value read so far and \<open>maxVal\<close> the largest value of the width: a
  byte that is no digit ends it with 0 and \<open>ErrSyntax\<close> (base 10 admits no sign, letter or
  underscore); a digit with which the value would exceed \<open>maxVal\<close> ends it with \<open>maxVal\<close>
  and \<open>ErrRange\<close>, before the bytes after it are looked at. Go tests \<open>n >= cutoff\<close> (then
  \<open>n * 10\<close> does not fit 64 bits) and \<open>n1 < n || n1 > maxVal\<close> for \<open>n1 = n * 10 + d\<close> in
  64-bit arithmetic; for a width of at most 64 bits both say that \<open>10 * n + d\<close> exceeds
  \<open>maxVal\<close>.
\<close>

fun ParseUint_scan :: "nat \<Rightarrow> nat \<Rightarrow> string \<Rightarrow> nat \<times> num_error option" where
  "ParseUint_scan maxVal n [] = (n, None)"
| "ParseUint_scan maxVal n (c # cs) =
     (if \<not> is_digit c then (0, Some ErrSyntax)
      else if maxVal < 10 * n + (byte c - 48) then (maxVal, Some ErrRange)
      else ParseUint_scan maxVal (10 * n + (byte c - 48)) cs)"

text \<open>\<open>strconv.ParseUint(s, 10, bits)\<close> with its error; the empty string is a syntax error.\<close>

definition ParseUint_err :: "nat \<Rightarrow> string \<Rightarrow> nat \<times> num_error option" where
  "ParseUint_err bits s =
     (if s = [] then (0, Some ErrSyntax) else ParseUint_scan (2 ^ bits - 1) 0 s)"

text \<open>\<open>strconv.ParseUint(s, 10, bits)\<close>: the value and whether \<open>err\<close> is \<open>nil\<close>.\<close>

definition ParseUint :: "nat \<Rightarrow> string \<Rightarrow> nat \<times> bool" where
  "ParseUint bits s = (fst (ParseUint_err bits s), snd (ParseUint_err bits s) = None)"

text \<open>
  \<open>strconv.ParseInt(s, 10, bits)\<close>, the value and whether \<open>err\<close> is \<open>nil\<close>: an optional
  sign, then \<open>ParseUint\<close> at the same width; its syntax error gives 0, and its value
  (the largest of the width after a range error) is cut to the nearest bound of the
  signed width when it is out of range, with an error.
\<close>

definition ParseInt :: "nat \<Rightarrow> string \<Rightarrow> int \<times> bool" where
  "ParseInt bits s =
     (case s of
        [] \<Rightarrow> (0, False)
      | c # cs \<Rightarrow>
          (let neg = (c = CHR ''-'');
               ds = (if c = CHR ''+'' \<or> c = CHR ''-'' then cs else s);
               un = fst (ParseUint_err bits ds);
               cutoff = (2::nat) ^ (bits - 1)
           in if snd (ParseUint_err bits ds) = Some ErrSyntax then (0, False)
              else if \<not> neg \<and> cutoff \<le> un then (int cutoff - 1, False)
              else if neg \<and> cutoff < un then (- int cutoff, False)
              else ((if neg then - int un else int un), True)))"

text \<open>\<open>strconv.Atoi\<close> is \<open>ParseInt(s, 10, 0)\<close> at the width of \<open>int\<close>, 64 bits.\<close>

definition Atoi :: "string \<Rightarrow> int \<times> bool" where
  "Atoi s = ParseInt 64 s"

subsection \<open>strings\<close>

text \<open>\<open>strings.Index(s, sep)\<close>: the first offset at which \<open>sep\<close> occurs, or -1.\<close>

fun Index_at :: "int \<Rightarrow> string \<Rightarrow> string \<Rightarrow> int" where
  "Index_at k [] sep = (if sep = [] then k else - 1)"
| "Index_at k (c # cs) sep =
     (if take (length sep) (c # cs) = sep then k else Index_at (k + 1) cs sep)"

definition Index :: "string \<Rightarrow> string \<Rightarrow> int" where
  "Index s sep = Index_at 0 s sep"

definition HasPrefix :: "string \<Rightarrow> string \<Rightarrow> bool" where
  "HasPrefix s p = (take (length p) s = p)"

text \<open>\<open>strings.Trim(s, cutset)\<close> for a cutset of ASCII bytes.\<close>

definition Trim :: "string \<Rightarrow> string \<Rightarrow> string" where
  "Trim s cutset =
     rev (dropWhile (\<lambda>c. c \<in> set cutset) (rev (dropWhile (\<lambda>c. c \<in> set cutset) s)))"

text \<open>The cutset \<open>"\t\n\r "\<close> of the parsers.\<close>

definition blanks :: string where
  "blanks = [CHR 0x09, CHR 0x0A, CHR 0x0D, CHR '' '']"

text \<open>
  \<open>strings.ToLower\<close> on ASCII letters. It is only applied to three-byte tokens that are
  then compared with the lower-case month names; the only non-ASCII letters whose lower
  case is ASCII give \<open>i\<close> and \<open>k\<close>, which occur in no month name, so the comparison is
  decided by the ASCII letters alone.
\<close>

definition to_lower_byte :: "char \<Rightarrow> char" where
  "to_lower_byte c =
     (case map_of (zip ''ABCDEFGHIJKLMNOPQRSTUVWXYZ'' ''abcdefghijklmnopqrstuvwxyz'') c of
        Some l \<Rightarrow> l
      | None \<Rightarrow> c)"

definition ToLower :: "string \<Rightarrow> string" where
  "ToLower s = map to_lower_byte s"


subsection \<open>time\<close>

text \<open>
  \<open>time.Date(year, month, day, hour, min, sec, 0, UTC).Unix()\<close>. Go normalises a month
  outside 1..12 into the year and carries seconds, minutes and hours that are out of
  range into the day; in UTC the result is the number of days up to the first of the
  (normalised) month plus \<open>day - 1\<close>, in seconds, plus the time of day, whatever the
  ranges of the fields.
\<close>

definition isLeap :: "int \<Rightarrow> bool" where
  "isLeap y = (y mod 4 = 0 \<and> (y mod 100 \<noteq> 0 \<or> y mod 400 = 0))"

definition daysBefore :: "int list" where
  "daysBefore = [0, 31, 59, 90, 120, 151, 181, 212, 243, 273, 304, 334]"

text \<open>Days from 1970-01-01 to the first of January of year \<open>y\<close>.\<close>

definition days_before_year :: "int \<Rightarrow> int" where
  "days_before_year y =
     365 * (y - 1970) + (y - 1) div 4 - (y - 1) div 100 + (y - 1) div 400 - 477"

definition Date_Unix :: "int \<Rightarrow> int \<Rightarrow> int \<Rightarrow> int \<Rightarrow> int \<Rightarrow> int \<Rightarrow> int" where
  "Date_Unix year month day hour minute sec =
     (let m = (month - 1) mod 12;
          y = year + (month - 1) div 12;
          d = days_before_year y + daysBefore ! nat m
              + (if isLeap y \<and> 2 \<le> m then 1 else 0) + (day - 1)
      in d * 86400 + hour * 3600 + minute * 60 + sec)"

text \<open>The zero \<open>time.Time\<close> (January 1, year 1, UTC) in seconds since the Unix epoch.\<close>

definition zero_Time :: int where
  "zero_Time = - 62135596800"

section \<open>parse.go\<close>

datatype MTIME_TYPE =
  UNKNOWN_MTIME_TYPE | LOCAL_MTIME_TYPE | REMOTE_MINUTE_MTIME_TYPE | REMOTE_DAY_MTIME_TYPE

datatype ID_TYPE = UNKNOWN_ID_TYPE | FULL_ID_TYPE

text \<open>
  \<open>Size\<close> is a \<open>uint64\<close>: it only ever holds results of \<open>ParseUint 64\<close>, which are below
  \<open>2 ^ 64\<close>. \<open>Mtime\<close> is a \<open>time.Time\<close> built by \<open>time.Unix(t, 0)\<close>, kept as \<open>t\<close>.
\<close>

record FTPListData =
  RawLine :: string
  Name :: string
  TryCwd :: bool
  TryRetr :: bool
  Size :: nat
  MtimeType :: MTIME_TYPE
  Mtime :: int
  IdType :: ID_TYPE
  Id :: string
  LinkDest :: string

definition newFTPListData :: "string \<Rightarrow> FTPListData" where
  "newFTPListData rawLine =
     \<lparr>RawLine = rawLine, Name = [], TryCwd = False, TryRetr = False, Size = 0,
      MtimeType = UNKNOWN_MTIME_TYPE, Mtime = zero_Time, IdType = UNKNOWN_ID_TYPE,
      Id = [], LinkDest = []\<rparr>"

definition MONTHS :: "string list" where
  "MONTHS = [''jan'', ''feb'', ''mar'', ''apr'', ''may'', ''jun'',
             ''jul'', ''aug'', ''sep'', ''oct'', ''nov'', ''dec'']"

definition getMtime :: "int \<Rightarrow> int \<Rightarrow> int \<Rightarrow> int \<Rightarrow> int \<Rightarrow> int \<Rightarrow> int" where
  "getMtime year month mday hour minute second = Date_Unix year month mday hour minute second"

text \<open>
  The globals \<open>now\<close> and \<open>currentYear\<close> are read once, at start-up; the functions that use
  them take \<open>now.Unix()\<close> and \<open>currentYear\<close> as their first two arguments.
\<close>

function guessTime_loop :: "int \<Rightarrow> int \<Rightarrow> int \<Rightarrow> int \<Rightarrow> int \<Rightarrow> int \<Rightarrow> int \<Rightarrow> int" where
  "guessTime_loop now ul year month mday hour minute =
     (if year < ul
      then (let t = getMtime year month mday hour minute 0
            in if now - t < 350 * 86400 then t
               else guessTime_loop now ul (year + 1) month mday hour minute)
      else 0)"
  by pat_completeness auto
termination
  by (relation "measure (\<lambda>(now, ul, year, month, mday, hour, minute). nat (ul - year))") auto

definition guessTime :: "int \<Rightarrow> int \<Rightarrow> int \<Rightarrow> int \<Rightarrow> int \<Rightarrow> int \<Rightarrow> int" where
  "guessTime now currentYear month mday hour minute =
     guessTime_loop now (currentYear + 100) (currentYear - 1) month mday hour minute"

text \<open>\<open>getMonth\<close>: 1..12, or -1 for a token that is no month name.\<close>

fun month_index :: "string \<Rightarrow> string list \<Rightarrow> int \<Rightarrow> int" where
  "month_index buf [] i = - 1"
| "month_index buf (m # ms) i = (if ToLower buf = m then i + 1 else month_index buf ms (i + 1))"

definition getMonth :: "string \<Rightarrow> int" where
  "getMonth buf = (if length buf = 3 then month_index buf MONTHS 0 else - 1)"

definition parseInt :: "string \<Rightarrow> int" where
  "parseInt num = fst (ParseInt 32 num)"


subsection \<open>parseEPLF\<close>

text \<open>
  The \<open>switch\<close> on the tag \<open>buf[i]\<close> of the fact that ends at the comma \<open>buf[j]\<close>:
  \<open>None\<close> is \<open>return nil\<close>, \<open>Some\<close> the entry with which the loop goes on.
\<close>

definition parseEPLF_fact :: "string \<Rightarrow> int \<Rightarrow> int \<Rightarrow> FTPListData \<Rightarrow> panic + FTPListData option" where
  "parseEPLF_fact buf i j fdata =
     and_then (at buf i) (\<lambda>c.
       if c = CHR ''/'' then Inr (Some (fdata\<lparr>TryCwd := True\<rparr>))
       else if c = CHR ''r'' then Inr (Some (fdata\<lparr>TryRetr := True\<rparr>))
       else if c = CHR ''s'' then
         and_then (slice buf (i + 1) j) (\<lambda>digits.
           case ParseUint 64 digits of
             (sz, ok) \<Rightarrow> if \<not> ok then Inr None else Inr (Some (fdata\<lparr>Size := sz\<rparr>)))
       else if c = CHR ''m'' then
         and_then (slice buf (i + 1) j) (\<lambda>digits.
           case ParseInt 64 digits of
             (unixtime, ok) \<Rightarrow>
               if \<not> ok then Inr None
               else Inr (Some (fdata\<lparr>MtimeType := LOCAL_MTIME_TYPE, Mtime := unixtime\<rparr>)))
       else if c = CHR ''i'' then
         and_then (slice buf (i + 1) (j - i - 1)) (\<lambda>ident.
           Inr (Some (fdata\<lparr>IdType := FULL_ID_TYPE, Id := ident\<rparr>)))
       else Inr (Some fdata))"

function parseEPLF_loop :: "string \<Rightarrow> int \<Rightarrow> int \<Rightarrow> FTPListData \<Rightarrow> panic + FTPListData option" where
  "parseEPLF_loop buf i j fdata =
     (if j < len buf
      then (case at buf j of
              Inl e \<Rightarrow> Inl e
            | Inr bj \<Rightarrow>
                if bj = CHR 0x09
                then and_then (slice_from buf (j + 1)) (\<lambda>name. Inr (Some (fdata\<lparr>Name := name\<rparr>)))
                else if bj = CHR '',''
                then (case parseEPLF_fact buf i j fdata of
                        Inl e \<Rightarrow> Inl e
                      | Inr None \<Rightarrow> Inr None
                      | Inr (Some fdata') \<Rightarrow> parseEPLF_loop buf (j + 1) (j + 1) fdata')
                else parseEPLF_loop buf i (j + 1) fdata)
      else Inr (Some fdata))"
  by pat_completeness auto
termination
  by (relation "measure (\<lambda>(buf, i, j, fdata). nat (len buf - j))") auto

definition parseEPLF :: "string \<Rightarrow> panic + FTPListData option" where
  "parseEPLF buf = parseEPLF_loop (Trim buf blanks) 1 1 (newFTPListData buf)"

subsection \<open>parseUNIXStyle\<close>

text \<open>The variables of the token scanner; \<open>tok\<close> is \<open>i\<close>, the start of the current token,
  and \<open>tsize\<close> is \<open>size\<close>, the tentative size.\<close>

record scan =
  st :: int
  tok :: int
  tsize :: nat
  month :: int
  mday :: int
  entry :: FTPListData

text \<open>
  State 7, the token \<open>buf[i:j]\<close> after the day of the month: the kind of time and the
  time, or \<open>None\<close> for \<open>break\<close>. \<open>string(buf[i])\<close> converts one byte to a string; for a
  byte that is not ASCII the result has two bytes, and \<open>parseInt\<close> gives 0 as it does
  for the byte itself.
\<close>

definition time_or_year ::
    "int \<Rightarrow> int \<Rightarrow> string \<Rightarrow> int \<Rightarrow> int \<Rightarrow> int \<Rightarrow> int \<Rightarrow> panic + (MTIME_TYPE \<times> int) option" where
  "time_or_year now currentYear buf i j mon md =
     and_then (if j - i = 4 then and_then (at buf (i + 1)) (\<lambda>c. Inr (c = CHR '':'')) else Inr False)
       (\<lambda>hmm.
         if hmm
         then and_then (at buf i) (\<lambda>h.
              and_then (slice buf (i + 2) (i + 4)) (\<lambda>m.
                Inr (Some (REMOTE_MINUTE_MTIME_TYPE,
                           guessTime now currentYear mon md (parseInt [h]) (parseInt m)))))
         else
           and_then (if j - i = 5 then and_then (at buf (i + 2)) (\<lambda>c. Inr (c = CHR '':'')) else Inr False)
             (\<lambda>hhmm.
               if hhmm
               then and_then (slice buf i (i + 2)) (\<lambda>h.
                    and_then (slice buf (i + 3) (i + 5)) (\<lambda>m.
                      Inr (Some (REMOTE_MINUTE_MTIME_TYPE,
                                 guessTime now currentYear mon md (parseInt h) (parseInt m)))))
               else if 4 \<le> j - i
               then and_then (slice buf i j) (\<lambda>y.
                      Inr (Some (REMOTE_DAY_MTIME_TYPE, getMtime (parseInt y) mon md 0 0 0)))
               else Inr None))"

text \<open>
  The body of \<open>if (buf[j] == ' ') && (buf[j-1] != ' ')\<close> up to the inner loop that moves
  \<open>i\<close> to the next token; the flag is \<open>True\<close> when the body leaves the scan by \<open>break\<close>.
\<close>

definition unix_field :: "int \<Rightarrow> int \<Rightarrow> string \<Rightarrow> int \<Rightarrow> scan \<Rightarrow> panic + (bool \<times> scan)" where
  "unix_field now currentYear buf j s =
     (let i = tok s in
      if st s = 1 then Inr (False, s\<lparr>st := 2\<rparr>)
      else if st s = 2 then
        (if j - i = 6
         then and_then (at buf i) (\<lambda>c. Inr (False, s\<lparr>st := (if c = CHR ''f'' then 4 else 3)\<rparr>))
         else Inr (False, s\<lparr>st := 3\<rparr>))
      else if st s = 3 then Inr (False, s\<lparr>st := 4\<rparr>)
      else if st s = 4 then
        and_then (slice buf i j) (\<lambda>t. Inr (False, s\<lparr>tsize := fst (ParseUint 64 t), st := 5\<rparr>))
      else if st s = 5 then
        and_then (slice buf i j) (\<lambda>t.
          if 0 \<le> getMonth t then Inr (False, s\<lparr>month := getMonth t, st := 6\<rparr>)
          else Inr (False, s\<lparr>month := getMonth t, tsize := fst (ParseUint 64 t)\<rparr>))
      else if st s = 6 then
        and_then (slice buf i j) (\<lambda>t. Inr (False, s\<lparr>mday := parseInt t, st := 7\<rparr>))
      else if st s = 7 then
        and_then (time_or_year now currentYear buf i j (month s) (mday s)) (\<lambda>r.
          case r of
            None \<Rightarrow> Inr (True, s)
          | Some (kind, t) \<Rightarrow>
              and_then (slice_from buf (j + 1)) (\<lambda>name.
                Inr (False, s\<lparr>entry := (entry s)\<lparr>MtimeType := kind, Mtime := t, Name := name\<rparr>,
                              st := 8\<rparr>)))
      else Inr (False, s))"

text \<open>\<open>for i = j + 1; (i < buflen) && (buf[i] == ' '); i++ {}\<close>\<close>

definition next_token :: "string \<Rightarrow> int \<Rightarrow> int" where
  "next_token buf j = j + 1 + int (length (takeWhile (\<lambda>c. c = CHR '' '') (drop (nat (j + 1)) buf)))"

text \<open>\<open>(buf[j] == ' ') && (buf[j-1] != ' ')\<close>\<close>

definition token_end :: "string \<Rightarrow> int \<Rightarrow> panic + bool" where
  "token_end buf j =
     and_then (at buf j) (\<lambda>bj.
       if bj = CHR '' '' then and_then (at buf (j - 1)) (\<lambda>bp. Inr (bp \<noteq> CHR '' ''))
       else Inr False)"

function parseUNIXStyle_loop :: "int \<Rightarrow> int \<Rightarrow> string \<Rightarrow> int \<Rightarrow> scan \<Rightarrow> panic + scan" where
  "parseUNIXStyle_loop now currentYear buf j s =
     (if j < len buf
      then (case token_end buf j of
              Inl e \<Rightarrow> Inl e
            | Inr False \<Rightarrow> parseUNIXStyle_loop now currentYear buf (j + 1) s
            | Inr True \<Rightarrow>
                (case unix_field now currentYear buf j s of
                   Inl e \<Rightarrow> Inl e
                 | Inr (True, s') \<Rightarrow> Inr s'
                 | Inr (False, s') \<Rightarrow>
                     parseUNIXStyle_loop now currentYear buf (j + 1)
                       (s'\<lparr>tok := next_token buf j\<rparr>)))
      else Inr s)"
  by pat_completeness auto
termination
  by (relation "measure (\<lambda>(now, currentYear, buf, j, s). nat (len buf - j))") auto

text \<open>
  The loop over \<open>fdata.Name\<close> for a symbolic link stops at the first \<open>i\<close> with
  \<open>Name[i:i+4] == " -> "\<close>, which is \<open>strings.Index(Name, " -> ")\<close>.
\<close>

definition split_link :: "FTPListData \<Rightarrow> FTPListData" where
  "split_link fdata =
     (let tmp = Name fdata; i = Index tmp '' -> '' in
      if 0 \<le> i then fdata\<lparr>Name := take (nat i) tmp, LinkDest := drop (nat (i + 4)) tmp\<rparr>
      else fdata)"

text \<open>
  \<open>strings.TrimSpace\<close>: the white space of Unicode in its UTF-8 encoding, which is the six
  ASCII bytes and the code points U+0085, U+00A0, U+1680, U+2000..U+200A, U+2028, U+2029,
  U+202F, U+205F and U+3000.
\<close>

definition space_runes :: "string list" where
  "space_runes =
     map (\<lambda>c. [c]) [CHR 0x09, CHR 0x0A, CHR 0x0B, CHR 0x0C, CHR 0x0D, CHR 0x20]
     @ [[CHR 0xC2, CHR 0x85], [CHR 0xC2, CHR 0xA0], [CHR 0xE1, CHR 0x9A, CHR 0x80]]
     @ map (\<lambda>c. [CHR 0xE2, CHR 0x80, c])
         [CHR 0x80, CHR 0x81, CHR 0x82, CHR 0x83, CHR 0x84, CHR 0x85, CHR 0x86, CHR 0x87,
          CHR 0x88, CHR 0x89, CHR 0x8A, CHR 0xA8, CHR 0xA9, CHR 0xAF]
     @ [[CHR 0xE2, CHR 0x81, CHR 0x9F], [CHR 0xE3, CHR 0x80, CHR 0x80]]"

fun trim_left_space :: "nat \<Rightarrow> string \<Rightarrow> string" where
  "trim_left_space 0 s = s"
| "trim_left_space (Suc n) s =
     (case filter (\<lambda>r. take (length r) s = r) space_runes of
        [] \<Rightarrow> s
      | r # _ \<Rightarrow> trim_left_space n (drop (length r) s))"

fun trim_right_space :: "nat \<Rightarrow> string \<Rightarrow> string" where
  "trim_right_space 0 s = s"
| "trim_right_space (Suc n) s =
     (case filter (\<lambda>r. length r \<le> length s \<and> drop (length s - length r) s = r) space_runes of
        [] \<Rightarrow> s
      | r # _ \<Rightarrow> trim_right_space n (take (length s - length r) s))"

definition TrimSpace :: "string \<Rightarrow> string" where
  "TrimSpace s = trim_right_space (length s) (trim_left_space (length s) s)"

definition parseUNIXStyle :: "int \<Rightarrow> int \<Rightarrow> string \<Rightarrow> panic + FTPListData option" where
  "parseUNIXStyle now currentYear raw =
     (let buf = Trim raw blanks in
      and_then (at buf 0) (\<lambda>c.
        let fdata = newFTPListData raw;
            fdata = (if c = CHR ''d'' then fdata\<lparr>TryCwd := True\<rparr>
                     else if c = CHR ''-'' then fdata\<lparr>TryRetr := True\<rparr>
                     else if c = CHR ''l'' then fdata\<lparr>TryRetr := True, TryCwd := True\<rparr>
                     else fdata)
        in and_then (parseUNIXStyle_loop now currentYear buf 1
                       \<lparr>st = 1, tok = 0, tsize = 0, month = 1, mday = 0, entry = fdata\<rparr>) (\<lambda>s.
             let fdata = (entry s)\<lparr>Size := tsize s\<rparr>;
                 fdata = (if c = CHR ''l'' then split_link fdata else fdata)
             in and_then (at buf 1) (\<lambda>b1.
                  if b1 = CHR '' '' \<or> b1 = CHR ''[''
                  then Inr (Some (if 3 < length (Name fdata)
                                  then fdata\<lparr>Name := TrimSpace (Name fdata)\<rparr> else fdata))
                  else Inr (Some fdata)))))"

subsection \<open>indexAfter, skip and the delimiter walk\<close>

definition indexAfter :: "string \<Rightarrow> string \<Rightarrow> int \<Rightarrow> panic + int" where
  "indexAfter s sep i =
     and_then (slice_from s i) (\<lambda>rest.
       let x = i + Index rest sep in Inr (if x < i then - 1 else x))"

function skip :: "string \<Rightarrow> int \<Rightarrow> char \<Rightarrow> panic + int" where
  "skip s i c =
     (case at s i of
        Inl e \<Rightarrow> Inl e
      | Inr b \<Rightarrow>
          if b = c then (if i + 1 = len s then Inr (- 1) else skip s (i + 1) c) else Inr i)"
  by pat_completeness auto
termination
  by (relation "measure (\<lambda>(s, i, c). nat (len s - i))") (auto simp: at_def split: if_splits)

text \<open>
  \<open>for (buf[j] != a) && (buf[j] != b) { j += 1; if j == buflen { return } }\<close>: the index
  reached, or -1 where the loop returns from the parser.
\<close>

function scan_to :: "string \<Rightarrow> int \<Rightarrow> char \<Rightarrow> char \<Rightarrow> panic + int" where
  "scan_to s j a b =
     (case at s j of
        Inl e \<Rightarrow> Inl e
      | Inr c \<Rightarrow>
          if c \<noteq> a \<and> c \<noteq> b
          then (if j + 1 = len s then Inr (- 1) else scan_to s (j + 1) a b)
          else Inr j)"
  by pat_completeness auto
termination
  by (relation "measure (\<lambda>(s, j, a, b). nat (len s - j))") (auto simp: at_def split: if_splits)

text \<open>\<open>if buf[j] == c { j += 1; if j == buflen { return } }\<close>, with -1 for the return.\<close>

definition eat :: "string \<Rightarrow> int \<Rightarrow> char \<Rightarrow> panic + int" where
  "eat s j c =
     and_then (at s j) (\<lambda>b.
       if b = c then (if j + 1 = len s then Inr (- 1) else Inr (j + 1)) else Inr j)"

text \<open>
  \<open>if j = f(...); j == -1 { return }\<close>: the bare \<open>return\<close> of a function whose result
  is the named \<open>fdata\<close> returns the entry as it stands, here \<open>r\<close>.
\<close>

definition or_return :: "panic + int \<Rightarrow> 'r \<Rightarrow> (int \<Rightarrow> panic + 'r) \<Rightarrow> panic + 'r" where
  "or_return m r k = and_then m (\<lambda>x. if x = - 1 then Inr r else k x)"

subsection \<open>parseMultinet\<close>

definition parseMultinet :: "string \<Rightarrow> int \<Rightarrow> panic + FTPListData option" where
  "parseMultinet raw i0 =
     (let buf = Trim raw blanks in
      and_then (slice_to buf i0) (\<lambda>name.
      and_then (if 4 < i0
                then and_then (slice buf (i0 - 4) i0) (\<lambda>suffix.
                       if suffix = ''.DIR''
                       then and_then (slice name 0 (len name - 4)) (\<lambda>stem.
                              Inr ((newFTPListData raw)\<lparr>Name := stem, TryCwd := True\<rparr>))
                       else Inr ((newFTPListData raw)\<lparr>Name := name\<rparr>))
                else Inr ((newFTPListData raw)\<lparr>Name := name\<rparr>)) (\<lambda>fdata0.
      let fdata = (if TryCwd fdata0 = False then fdata0\<lparr>TryRetr := True\<rparr> else fdata0) in
      or_return (indexAfter buf '' '' i0) (Some fdata) (\<lambda>i.
      or_return (skip buf i (CHR '' '')) (Some fdata) (\<lambda>i.
      or_return (indexAfter buf '' '' i) (Some fdata) (\<lambda>i.
      or_return (skip buf i (CHR '' '')) (Some fdata) (\<lambda>i.
      or_return (indexAfter buf ''-'' i) (Some fdata) (\<lambda>j.
      and_then (slice buf i j) (\<lambda>mday.
      or_return (skip buf j (CHR ''-'')) (Some fdata) (\<lambda>i.
      or_return (indexAfter buf ''-'' i) (Some fdata) (\<lambda>j.
      and_then (slice buf i j) (\<lambda>month.
      if getMonth month < 0 then Inr (Some fdata)
      else
      or_return (skip buf j (CHR ''-'')) (Some fdata) (\<lambda>i.
      or_return (indexAfter buf '' '' i) (Some fdata) (\<lambda>j.
      and_then (slice buf i j) (\<lambda>year.
      or_return (skip buf j (CHR '' '')) (Some fdata) (\<lambda>i.
      or_return (indexAfter buf '':'' i) (Some fdata) (\<lambda>j.
      and_then (slice buf i j) (\<lambda>hour.
      or_return (skip buf j (CHR '':'')) (Some fdata) (\<lambda>i.
      or_return (scan_to buf i (CHR '':'') (CHR '' '')) (Some fdata) (\<lambda>j.
      and_then (slice buf i j) (\<lambda>minute.
        Inr (Some (fdata\<lparr>MtimeType := REMOTE_MINUTE_MTIME_TYPE,
                         Mtime := getMtime (parseInt year) (getMonth month) (parseInt mday)
                                    (parseInt hour) (parseInt minute) 0\<rparr>))
      )))))))))))))))))))))"

subsection \<open>parseMSDOS\<close>

text \<open>\<open>if year < 50 { year += 2000 }; if year < 1000 { year += 1900 }\<close>\<close>

definition msdos_year :: "int \<Rightarrow> int" where
  "msdos_year year =
     (let year = (if year < 50 then year + 2000 else year)
      in if year < 1000 then year + 1900 else year)"

text \<open>Go's \<open>%\<close> truncates towards zero.\<close>

definition rem :: "int \<Rightarrow> int \<Rightarrow> int" where
  "rem a b = (if 0 \<le> a then a mod \<bar>b\<bar> else - ((- a) mod \<bar>b\<bar>))"

definition parseMSDOS :: "string \<Rightarrow> panic + FTPListData option" where
  "parseMSDOS raw =
     (let buf = Trim raw blanks; fdata = newFTPListData raw in
      or_return (indexAfter buf ''-'' 0) (Some fdata) (\<lambda>j.
      and_then (slice buf 0 j) (\<lambda>month.
      or_return (skip buf j (CHR ''-'')) (Some fdata) (\<lambda>i.
      or_return (indexAfter buf ''-'' i) (Some fdata) (\<lambda>j.
      and_then (slice buf i j) (\<lambda>mday.
      or_return (skip buf j (CHR ''-'')) (Some fdata) (\<lambda>i.
      or_return (indexAfter buf '' '' i) (Some fdata) (\<lambda>j.
      and_then (slice buf i j) (\<lambda>year.
      or_return (skip buf j (CHR '' '')) (Some fdata) (\<lambda>i.
      or_return (indexAfter buf '':'' i) (Some fdata) (\<lambda>j.
      and_then (slice buf i j) (\<lambda>hour.
      or_return (skip buf j (CHR '':'')) (Some fdata) (\<lambda>i.
      or_return (scan_to buf i (CHR ''A'') (CHR ''P'')) (Some fdata) (\<lambda>j.
      and_then (slice buf i j) (\<lambda>minute.
      or_return (eat buf j (CHR ''A'')) (Some fdata) (\<lambda>j.
      and_then (at buf j) (\<lambda>p.
      let hour24 = (if p = CHR ''P'' then rem (parseInt hour + 12) 24 else parseInt hour) in
      or_return (eat buf j (CHR ''P'')) (Some fdata) (\<lambda>j.
      or_return (eat buf j (CHR ''M'')) (Some fdata) (\<lambda>j.
      or_return (skip buf j (CHR '' '')) (Some fdata) (\<lambda>j.
      and_then (at buf j) (\<lambda>lt.
      and_then
        (if lt = CHR ''<''
         then or_return (indexAfter buf '' '' j) (fdata\<lparr>TryCwd := True\<rparr>, - 1)
                (\<lambda>j. Inr (fdata\<lparr>TryCwd := True\<rparr>, j))
         else or_return (indexAfter buf '' '' j) (fdata, - 1) (\<lambda>j'.
                and_then (slice buf j j') (\<lambda>digits.
                  Inr (fdata\<lparr>Size := fst (ParseUint 64 digits), TryRetr := True\<rparr>, j'))))
        (\<lambda>(fdata, j).
      if j = - 1 then Inr (Some fdata)
      else
      or_return (skip buf j (CHR '' '')) (Some fdata) (\<lambda>j.
      and_then (slice_from buf j) (\<lambda>name.
        Inr (Some (fdata\<lparr>Name := name, MtimeType := REMOTE_MINUTE_MTIME_TYPE,
                         Mtime := getMtime (msdos_year (parseInt year)) (parseInt month)
                                    (parseInt mday) hour24 (parseInt minute) 0\<rparr>))
      ))))))))))))))))))))))))"

subsection \<open>ParseLine\<close>

definition ParseLine :: "int \<Rightarrow> int \<Rightarrow> string \<Rightarrow> panic + FTPListData option" where
  "ParseLine now currentYear ftpListLine =
     (let buf = ftpListLine in
      if len buf < 2 then Inr None
      else and_then (at buf 0) (\<lambda>c.
        if c = CHR ''+'' then parseEPLF buf
        else if c \<in> set ''bcdlps-'' then parseUNIXStyle now currentYear buf
        else if 0 < Index buf '';'' then parseMultinet buf (Index buf '';'')
        else if 48 \<le> byte c \<and> byte c \<le> 57 then parseMSDOS buf
        else Inr None))"

section \<open>ftp.go\<close>

text \<open>
  The errors of the control connection: end of stream and other transport failures of
  \<open>ReadLine\<close>, \<open>textproto.ProtocolError\<close> with its message, \<open>textproto.Error\<close> with the
  code and message of an unexpected status, and the errors made by \<open>errors.New\<close>.
\<close>

datatype error =
  EOF
| TransportError string
| ProtocolError string
| StatusError int string
| ErrorString string

text \<open>
  The control connection, seen from the reader: the outcomes of the successive calls of
  \<open>ReadLine\<close>, each a line (without its line end) or an error; reading past the last
  outcome gives \<open>EOF\<close>. A failed \<open>ReadLine\<close> returns the empty string.
\<close>

type_synonym Conn = "(error + string) list"

fun ReadLine :: "Conn \<Rightarrow> (string \<times> error option) \<times> Conn" where
  "ReadLine [] = (([], Some EOF), [])"
| "ReadLine (Inl e # conn) = (([], Some e), conn)"
| "ReadLine (Inr line # conn) = ((line, None), conn)"



text \<open>
  \<open>parseCodeLine\<close> returns \<open>(code, continued, message, err)\<close>. \<open>line[3]\<close> is only read when
  \<open>len(line) < 4\<close> is false, and \<open>code/100\<close> is only computed for a code of at least 100.
\<close>

definition parseCodeLine :: "string \<Rightarrow> int \<Rightarrow> int \<times> bool \<times> string \<times> error option" where
  "parseCodeLine line expectCode =
     (if len line < 4 \<or> (line ! 3 \<noteq> CHR '' '' \<and> line ! 3 \<noteq> CHR ''-'')
      then (0, False, [], Some (ProtocolError (''short response: '' @ line)))
      else
        (let continued = (line ! 3 = CHR ''-'');
             code = fst (Atoi (take 3 line))
         in if \<not> snd (Atoi (take 3 line)) \<or> code < 100
            then (code, continued, [], Some (ProtocolError (''invalid response code: '' @ line)))
            else
              (let message = drop 4 line
               in if 1 \<le> expectCode \<and> expectCode < 10 \<and> code div 100 \<noteq> expectCode
                     \<or> 10 \<le> expectCode \<and> expectCode < 100 \<and> code div 10 \<noteq> expectCode
                     \<or> 100 \<le> expectCode \<and> expectCode < 1000 \<and> code \<noteq> expectCode
                  then (code, continued, message, Some (StatusError code message))
                  else (code, continued, message, None))))"

text \<open>
  \<open>MyreadCodeLine\<close>. After a line that starts with two spaces, the first further
  \<open>ReadLine\<close> drops its error (\<open>line, _ = r.ReadLine()\<close>) and the test that follows reads
  the \<open>err\<close> of the first read, which is \<open>nil\<close> there.
\<close>

definition MyreadCodeLine ::
    "Conn \<Rightarrow> int \<Rightarrow> (int \<times> bool \<times> string \<times> error option) \<times> Conn" where
  "MyreadCodeLine r expectCode =
     (case ReadLine r of
        ((line, Some e), r1) \<Rightarrow> ((0, False, [], Some e), r1)
      | ((line, None), r1) \<Rightarrow>
          if HasPrefix line ''  ''
          then (case ReadLine r1 of
                  ((line1, ignored), r2) \<Rightarrow>
                    (case ReadLine r2 of
                       ((line2, Some e), r3) \<Rightarrow> ((0, False, [], Some e), r3)
                     | ((line2, None), r3) \<Rightarrow> (parseCodeLine line2 expectCode, r3)))
          else (parseCodeLine line expectCode, r1))"

text \<open>
  \<open>MyReadCodeLine\<close> returns \<open>(code, message, err)\<close>; its test \<open>err == nil && continued\<close>
  guards a bare \<open>return\<close> and is followed by the same \<open>return\<close>.
\<close>

definition MyReadCodeLine :: "Conn \<Rightarrow> int \<Rightarrow> (int \<times> string \<times> error option) \<times> Conn" where
  "MyReadCodeLine r expectCode =
     (case MyreadCodeLine r expectCode of
        ((code, continued, message, err), r') \<Rightarrow>
          if err = None \<and> continued then ((code, message, err), r')
          else ((code, message, err), r'))"


text \<open>\<open>s[k]\<close> on a slice of strings.\<close>

definition elem :: "string list \<Rightarrow> int \<Rightarrow> panic + string" where
  "elem s k = (if 0 \<le> k \<and> k < int (length s) then Inr (s ! nat k) else Inl IndexOutOfRange)"


text \<open>
  The loop of \<open>List\<close> over the data connection: the outcomes of the successive calls of
  \<open>bio.ReadString('\n')\<close>, each the line read (with its line end) and the error; reading
  past the last outcome gives \<open>io.EOF\<close>. The loop appends what \<open>ParseLine\<close> returns, a
  \<open>nil\<close> pointer (\<open>None\<close>) included. No \<open>recover\<close> is in force while the loop runs: the
  function that recovers is deferred after the loop, so a panic of \<open>ParseLine\<close> leaves
  \<open>List\<close>.
\<close>

fun List_loop ::
    "int \<Rightarrow> int \<Rightarrow> (string \<times> error option) list \<Rightarrow> FTPListData option list
      \<Rightarrow> panic + (FTPListData option list \<times> error option)" where
  "List_loop now currentYear [] entries = Inr (entries, None)"
| "List_loop now currentYear ((line, e) # reads) entries =
     (if e = Some EOF then Inr (entries, None)
      else if e \<noteq> None then Inr (entries, None)
      else and_then (ParseLine now currentYear line) (\<lambda>ftplistdata.
             List_loop now currentYear reads (entries @ [ftplistdata])))"

text \<open>
  \<open>List\<close>, given the error of \<open>cmdDataConn\<close> (the negotiation and the dial are not
  modelled) and the reads of the data connection.
\<close>

definition List ::
    "int \<Rightarrow> int \<Rightarrow> error option \<Rightarrow> (string \<times> error option) list
      \<Rightarrow> panic + (FTPListData option list \<times> error option)" where
  "List now currentYear dial reads =
     (case dial of
        Some e \<Rightarrow> Inr ([], Some e)
      | None \<Rightarrow> List_loop now currentYear reads [])"

section \<open>Notions used to state the properties\<close>

text \<open>
  \<open>currentYear\<close> is \<open>now.Year()\<close>, the year of \<open>now\<close> on the local clock, which is
  \<open>offset\<close> seconds ahead of UTC: \<open>now + offset\<close> lies between the first second of
  that year and the first second of the next.
\<close>

definition in_year :: "int \<Rightarrow> int \<Rightarrow> int \<Rightarrow> bool" where
  "in_year now offset year =
     (getMtime year 1 1 0 0 0 \<le> now + offset \<and> now + offset < getMtime (year + 1) 1 1 0 0 0)"

text \<open>The token \<open>buf[i:j]\<close> of the Unix-style scanner.\<close>

definition token :: "string \<Rightarrow> int \<Rightarrow> int \<Rightarrow> string" where
  "token buf i j = take (nat (j - i)) (drop (nat i) buf)"

text \<open>
  The reading of the token after the day of the month, in the words of the specification:
  \<open>H:MM\<close> or \<open>HH:MM\<close> gives hour and minute, a time of kind \<open>REMOTE_MINUTE\<close> and a
  guessed year; any other token of at least four bytes is a year, with a time of kind
  \<open>REMOTE_DAY\<close>; a shorter token gives nothing.
\<close>

definition read_clock :: "int \<Rightarrow> int \<Rightarrow> int \<Rightarrow> int \<Rightarrow> string \<Rightarrow> (MTIME_TYPE \<times> int) option" where
  "read_clock now cy mon md t =
     (if length t = 4 \<and> t ! 1 = CHR '':''
      then Some (REMOTE_MINUTE_MTIME_TYPE, guessTime now cy mon md (parseInt [t ! 0]) (parseInt (drop 2 t)))
      else if length t = 5 \<and> t ! 2 = CHR '':''
      then Some (REMOTE_MINUTE_MTIME_TYPE, guessTime now cy mon md (parseInt (take 2 t)) (parseInt (drop 3 t)))
      else if 4 \<le> length t
      then Some (REMOTE_DAY_MTIME_TYPE, getMtime (parseInt t) mon md 0 0 0)
      else None)"

text \<open>The value of a string of decimal digits.\<close>

definition digits_value :: "string \<Rightarrow> nat" where
  "digits_value s = foldl (\<lambda>acc c. 10 * acc + (byte c - 48)) 0 s"



text \<open>
  \<open>buf[i:j]\<close> is a fact of the EPLF line \<open>buf\<close>: it starts after the \<open>+\<close> or after a
  comma, is ended by the comma \<open>buf[j]\<close>, holds no comma, and no tab (which starts the
  name) comes before its end.
\<close>

definition eplf_fact :: "string \<Rightarrow> int \<Rightarrow> int \<Rightarrow> bool" where
  "eplf_fact buf i j =
     (1 \<le> i \<and> i \<le> j \<and> j < len buf \<and> buf ! nat j = CHR '',''
      \<and> (i = 1 \<or> buf ! nat (i - 1) = CHR '','')
      \<and> CHR '','' \<notin> set (token buf i j) \<and> CHR 0x09 \<notin> set (token buf 1 j))"

text \<open>
  A fact with the tag \<open>s\<close> or \<open>m\<close> whose digits \<open>buf[i+1:j]\<close> are not accepted by
  \<open>ParseUint\<close>, respectively \<open>ParseInt\<close> (a syntax error or a value out of range).
\<close>

definition unparsable_number :: "string \<Rightarrow> int \<Rightarrow> int \<Rightarrow> bool" where
  "unparsable_number buf i j =
     (eplf_fact buf i j
      \<and> (buf ! nat i = CHR ''s'' \<and> \<not> snd (ParseUint 64 (token buf (i + 1) j))
         \<or> buf ! nat i = CHR ''m'' \<and> \<not> snd (ParseInt 64 (token buf (i + 1) j))))"

text \<open>The loop of \<open>parseEPLF\<close> at \<open>j\<close>, with \<open>i\<close> the start of the fact that holds \<open>j\<close>.\<close>

definition in_fact :: "string \<Rightarrow> int \<Rightarrow> int \<Rightarrow> bool" where
  "in_fact buf i j =
     (1 \<le> i \<and> i \<le> j \<and> (i = 1 \<or> buf ! nat (i - 1) = CHR '','')
      \<and> CHR '','' \<notin> set (token buf i j) \<and> CHR 0x09 \<notin> set (token buf 1 j))"

declare guessTime_loop.simps [simp del]
declare parseEPLF_loop.simps [simp del]
declare parseUNIXStyle_loop.simps [simp del]
declare skip.simps [simp del]
declare scan_to.simps [simp del]

section \<open>Evaluation\<close>

text \<open>The equations that compute the parsers on a given line.\<close>

lemmas go_defs =
  and_then_def or_return_def at_def slice_def slice_from_def slice_to_def len_def elem_def
  Trim_def blanks_def indexAfter_def Index_def eat_def HasPrefix_def

lemmas num_defs =
  parseInt_def Atoi_def ParseInt_def ParseUint_def ParseUint_err_def digits_value_def
  is_digit_def byte_def
  getMonth_def MONTHS_def ToLower_def to_lower_byte_def

lemmas unix_defs =
  parseUNIXStyle_def parseUNIXStyle_loop.simps token_end_def unix_field_def time_or_year_def
  next_token_def split_link_def

lemmas walk_defs = skip.simps scan_to.simps msdos_year_def rem_def


text \<open>
  \<open>strconv\<close> at the edges: a value out of range is cut to the bound at the digit where it
  overflows, whatever follows; a byte that is no digit gives 0 when it is reached first.
\<close>

lemma strconv_examples:
  "parseInt ''99999999999x'' = 2147483647"
  "parseInt ''12a'' = 0"
  "parseInt ''+'' = 0"
  "ParseInt 32 ''-2147483648'' = (- 2147483648, True)"
  "ParseInt 32 ''-2147483649'' = (- 2147483648, False)"
  "ParseInt 32 ''2147483648'' = (2147483647, False)"
  "ParseUint 64 ''18446744073709551615'' = (18446744073709551615, True)"
  "ParseUint 64 ''18446744073709551616x'' = (18446744073709551615, False)"
  "ParseUint 64 ''5x9'' = (0, False)"
  "Atoi ''99999999999999999999x'' = (9223372036854775807, False)"
  by (simp_all add: num_defs)

section \<open>The status line (parseCodeLine, MyreadCodeLine)\<close>

text \<open>
  C7. \<open>parseCodeLine\<close> fails with the error "short response" exactly when the line has
  fewer than four bytes or its fourth byte is neither a space nor a hyphen, and with the
  error "invalid response code" exactly when the line passes that test and its first
  three bytes are not accepted by \<open>Atoi\<close> or give a number below 100.
\<close>

theorem parseCodeLine_errors:
  "(snd (snd (snd (parseCodeLine line expectCode)))
      = Some (ProtocolError (''short response: '' @ line))
    \<longleftrightarrow> (length line < 4 \<or> (line ! 3 \<noteq> CHR '' '' \<and> line ! 3 \<noteq> CHR ''-'')))
   \<and> (snd (snd (snd (parseCodeLine line expectCode)))
      = Some (ProtocolError (''invalid response code: '' @ line))
    \<longleftrightarrow> (\<not> (length line < 4 \<or> (line ! 3 \<noteq> CHR '' '' \<and> line ! 3 \<noteq> CHR ''-''))
         \<and> (\<not> snd (Atoi (take 3 line)) \<or> fst (Atoi (take 3 line)) < 100)))"
  by (auto simp: parseCodeLine_def len_def Let_def)

theorem parseCodeLine_errors_witness:
  "snd (snd (snd (parseCodeLine ''22'' 2))) = Some (ProtocolError ''short response: 22'')
   \<and> snd (snd (snd (parseCodeLine ''220x'' 2))) = Some (ProtocolError ''short response: 220x'')
   \<and> snd (snd (snd (parseCodeLine ''099 '' 2))) = Some (ProtocolError ''invalid response code: 099 '')
   \<and> snd (snd (snd (parseCodeLine ''2x0-'' 2))) = Some (ProtocolError ''invalid response code: 2x0-'')
   \<and> snd (snd (snd (parseCodeLine ''220 ready'' 2))) = None"
  using parseCodeLine_errors [of "''22''" 2] parseCodeLine_errors [of "''220x''" 2]
    parseCodeLine_errors [of "''099 ''" 2] parseCodeLine_errors [of "''2x0-''" 2]
  by (simp add: parseCodeLine_def len_def num_defs)

text \<open>
  C8. When the first line read starts with two spaces, \<open>MyreadCodeLine\<close> drops it, reads
  two more times and decodes the line of the second of these reads (whatever the first
  of them gave, a line or an error). \<open>MyReadCodeLine\<close> returns the code, the message and
  the error of \<open>MyreadCodeLine\<close> whatever the continuation flag: a decoded line with a
  hyphen and no other error is returned with no error.
\<close>

theorem MyreadCodeLine_indented:
  "(HasPrefix line ''  '' \<longrightarrow>
      MyreadCodeLine (Inr line # r1 # Inr line2 # rest) expectCode
        = (parseCodeLine line2 expectCode, rest))
   \<and> (MyreadCodeLine r expectCode = ((code, continued, message, err), r') \<longrightarrow>
        MyReadCodeLine r expectCode = ((code, message, err), r'))"
  by (cases r1) (simp_all add: MyreadCodeLine_def MyReadCodeLine_def)

theorem MyreadCodeLine_indented_witness:
  "MyreadCodeLine
     [Inr ''226-Maximum disk quota limited to 1000000 Kbytes'',
      Inr ''    Used disk quota 0 Kbytes, available 1000000 Kbytes'',
      Inr ''226 Transfer complete.'', Inr ''226-Transfer complete.''] 226
     = ((226, True, ''Maximum disk quota limited to 1000000 Kbytes'', None),
        [Inr ''    Used disk quota 0 Kbytes, available 1000000 Kbytes'',
         Inr ''226 Transfer complete.'', Inr ''226-Transfer complete.''])
   \<and> MyReadCodeLine
     [Inr ''226-Maximum disk quota limited to 1000000 Kbytes'',
      Inr ''    Used disk quota 0 Kbytes, available 1000000 Kbytes'',
      Inr ''226 Transfer complete.'', Inr ''226-Transfer complete.''] 226
     = ((226, ''Maximum disk quota limited to 1000000 Kbytes'', None),
        [Inr ''    Used disk quota 0 Kbytes, available 1000000 Kbytes'',
         Inr ''226 Transfer complete.'', Inr ''226-Transfer complete.''])
   \<and> MyreadCodeLine
     [Inr ''    Used disk quota 0 Kbytes, available 1000000 Kbytes'',
      Inr ''226 Transfer complete.'', Inr ''226-Transfer complete.''] 226
     = ((226, True, ''Transfer complete.'', None), [])"
proof -
  let ?l0 = "''226-Maximum disk quota limited to 1000000 Kbytes''"
  let ?l1 = "''    Used disk quota 0 Kbytes, available 1000000 Kbytes''"
  let ?l2 = "''226 Transfer complete.''"
  let ?l3 = "''226-Transfer complete.''"
  have first: "MyreadCodeLine [Inr ?l0, Inr ?l1, Inr ?l2, Inr ?l3] 226
      = ((226, True, ''Maximum disk quota limited to 1000000 Kbytes'', None),
         [Inr ?l1, Inr ?l2, Inr ?l3])"
    by (simp add: MyreadCodeLine_def HasPrefix_def parseCodeLine_def len_def num_defs)
  have indent: "HasPrefix ?l1 ''  ''"
    by (simp add: HasPrefix_def)
  have decoded: "parseCodeLine ?l3 226 = (226, True, ''Transfer complete.'', None)"
    by (simp add: parseCodeLine_def len_def num_defs)
  from first indent decoded
    MyreadCodeLine_indented [of ?l1 "Inr ?l2" ?l3 "[]" 226
      "[Inr ?l0, Inr ?l1, Inr ?l2, Inr ?l3]" 226 True
      "''Maximum disk quota limited to 1000000 Kbytes''" None "[Inr ?l1, Inr ?l2, Inr ?l3]"]
  show ?thesis by simp
qed

section \<open>The year-guessing heuristic (guessTime)\<close>

lemma div_pred:
  fixes y n :: int
  assumes "0 < n"
  shows "y div n = (y - 1) div n + (if y mod n = 0 then 1 else 0)"
proof (cases "y mod n = 0")
  case True
  have "y = n * (y div n) + y mod n" by simp
  with True have "y - 1 = n * (y div n - 1) + (n - 1)" by (simp add: algebra_simps)
  then have "(y - 1) div n = y div n - 1"
    by (rule int_div_pos_eq) (use assms in simp_all)
  with True show ?thesis by simp
next
  case False
  have "0 \<le> y mod n" using assms by simp
  with False have pos: "0 \<le> y mod n - 1" by linarith
  have lt: "y mod n - 1 < n" using pos_mod_bound [OF assms, of y] by linarith
  have "y = n * (y div n) + y mod n" by simp
  then have "y - 1 = n * (y div n) + (y mod n - 1)" by linarith
  then have "(y - 1) div n = y div n"
    using pos lt by (rule int_div_pos_eq)
  with False show ?thesis by simp
qed

lemma days_before_year_step:
  "days_before_year (y + 1) = days_before_year y + (if isLeap y then 366 else 365)"
proof -
  define a :: int where "a = (if y mod 4 = 0 then 1 else 0)"
  define b :: int where "b = (if y mod 100 = 0 then 1 else 0)"
  define c :: int where "c = (if y mod 400 = 0 then 1 else 0)"
  have q4: "y div 4 = (y - 1) div 4 + a" unfolding a_def by (rule div_pred) simp
  have q100: "y div 100 = (y - 1) div 100 + b" unfolding b_def by (rule div_pred) simp
  have q400: "y div 400 = (y - 1) div 400 + c" unfolding c_def by (rule div_pred) simp
  have d1: "y mod 4 = 0" if "y mod 100 = 0"
  proof -
    from that have "100 dvd y" by (simp add: mod_eq_0_iff_dvd)
    moreover have "(4::int) dvd 100" by simp
    ultimately have "4 dvd y" by (rule dvd_trans [rotated])
    then show ?thesis by (simp add: mod_eq_0_iff_dvd)
  qed
  have d2: "y mod 100 = 0" if "y mod 400 = 0"
  proof -
    from that have "400 dvd y" by (simp add: mod_eq_0_iff_dvd)
    moreover have "(100::int) dvd 400" by simp
    ultimately have "100 dvd y" by (rule dvd_trans [rotated])
    then show ?thesis by (simp add: mod_eq_0_iff_dvd)
  qed
  have gen: "\<And>p q r. (q \<Longrightarrow> p) \<Longrightarrow> (r \<Longrightarrow> q) \<Longrightarrow>
      (if p then 1 else 0::int) - (if q then 1 else 0) + (if r then 1 else 0)
        = (if p \<and> (\<not> q \<or> r) then 1 else 0)"
    by auto
  have leap: "a - b + c = (if isLeap y then 1 else 0)"
    unfolding a_def b_def c_def isLeap_def by (rule gen) (fact d1 d2)+
  define e4 where "e4 = (y - 1) div 4"
  define e100 where "e100 = (y - 1) div 100"
  define e400 where "e400 = (y - 1) div 400"
  have now: "days_before_year y = 365 * (y - 1970) + e4 - e100 + e400 - 477"
    by (simp only: days_before_year_def e4_def e100_def e400_def)
  have "days_before_year (y + 1) = 365 * (y + 1 - 1970) + (y + 1 - 1) div 4 - (y + 1 - 1) div 100 + (y + 1 - 1) div 400 - 477"
    by (simp only: days_before_year_def)
  also have "\<dots> = 365 * (y + 1 - 1970) + y div 4 - y div 100 + y div 400 - 477"
    by (simp only: add_diff_cancel_right')
  also have "\<dots> = 365 * (y + 1 - 1970) + (e4 + a) - (e100 + b) + (e400 + c) - 477"
    by (simp only: q4 q100 q400 e4_def e100_def e400_def)
  also have "\<dots> = days_before_year y + 365 + (a - b + c)"
    unfolding now by simp
  finally show ?thesis unfolding leap by simp
qed

lemma isLeap_not_next: "isLeap y \<Longrightarrow> \<not> isLeap (y + 1)"
proof -
  assume "isLeap y"
  then have "y mod 4 = 0" by (simp add: isLeap_def)
  then have "(y + 1) mod 4 \<noteq> 0" by presburger
  then show ?thesis by (simp add: isLeap_def)
qed


lemma getMtime_month:
  assumes "1 \<le> mon" "mon \<le> 12"
  shows "getMtime y mon d h mi s =
    (days_before_year y + daysBefore ! nat (mon - 1) + (if isLeap y \<and> 3 \<le> mon then 1 else 0) + (d - 1)) * 86400
      + h * 3600 + mi * 60 + s"
proof -
  have "(mon - 1) mod 12 = mon - 1" "(mon - 1) div 12 = 0" using assms by auto
  then show ?thesis by (simp add: getMtime_def Date_Unix_def Let_def)
qed

lemma getMtime_new_year: "getMtime y 1 1 0 0 0 = days_before_year y * 86400"
  by (simp add: getMtime_month daysBefore_def)

lemma daysBefore_bound:
  assumes "1 \<le> mon" "mon \<le> 12"
  shows "0 \<le> daysBefore ! nat (mon - 1) \<and> daysBefore ! nat (mon - 1) \<le> 334"
proof -
  from assms have "mon = 1 \<or> mon = 2 \<or> mon = 3 \<or> mon = 4 \<or> mon = 5 \<or> mon = 6 \<or> mon = 7
      \<or> mon = 8 \<or> mon = 9 \<or> mon = 10 \<or> mon = 11 \<or> mon = 12" by arith
  then show ?thesis
    by (elim disjE) (simp_all add: daysBefore_def)
qed

lemma getMtime_next_year:
  assumes "1 \<le> mon" "mon \<le> 12"
  shows "getMtime y mon d h mi s + 365 * 86400 \<le> getMtime (y + 1) mon d h mi s
       \<and> getMtime (y + 1) mon d h mi s \<le> getMtime y mon d h mi s + 366 * 86400"
proof -
  define db where "db = daysBefore ! nat (mon - 1)"
  define a0 :: int where "a0 = (if isLeap y \<and> 3 \<le> mon then 1 else 0)"
  define a1 :: int where "a1 = (if isLeap (y + 1) \<and> 3 \<le> mon then 1 else 0)"
  define yl :: int where "yl = (if isLeap y then 366 else 365)"
  define dy where "dy = days_before_year y"
  have t0: "getMtime y mon d h mi s = (dy + db + a0 + (d - 1)) * 86400 + h * 3600 + mi * 60 + s"
    using assms by (simp only: getMtime_month db_def a0_def dy_def)
  have t1: "getMtime (y + 1) mon d h mi s = (dy + yl + db + a1 + (d - 1)) * 86400 + h * 3600 + mi * 60 + s"
    using assms by (simp only: getMtime_month db_def a1_def yl_def dy_def days_before_year_step)
  have "\<not> (isLeap y \<and> isLeap (y + 1))" using isLeap_not_next by blast
  then have "365 \<le> yl + a1 - a0" "yl + a1 - a0 \<le> 366"
    by (auto simp: yl_def a0_def a1_def)
  then show ?thesis unfolding t0 t1 by auto
qed

lemma getMtime_in_year:
  assumes "1 \<le> mon" "mon \<le> 12" "1 \<le> d" "d \<le> 31" "0 \<le> h" "h \<le> 23" "0 \<le> mi" "mi \<le> 59"
  shows "getMtime y 1 1 0 0 0 \<le> getMtime y mon d h mi 0
       \<and> getMtime y mon d h mi 0 < getMtime (y + 1) 1 1 0 0 0"
proof -
  define db where "db = daysBefore ! nat (mon - 1)"
  define a0 :: int where "a0 = (if isLeap y \<and> 3 \<le> mon then 1 else 0)"
  define yl :: int where "yl = (if isLeap y then 366 else 365)"
  define dy where "dy = days_before_year y"
  have t0: "getMtime y mon d h mi 0 = (dy + db + a0 + (d - 1)) * 86400 + h * 3600 + mi * 60 + 0"
    using assms(1,2) by (simp only: getMtime_month db_def a0_def dy_def)
  have db: "0 \<le> db" "db \<le> 334" using daysBefore_bound [OF assms(1,2)] by (simp_all add: db_def)
  have a: "0 \<le> a0" "a0 + 365 \<le> yl" by (auto simp: a0_def yl_def)
  have s: "getMtime y 1 1 0 0 0 = dy * 86400"
    by (simp only: getMtime_new_year dy_def)
  have n: "getMtime (y + 1) 1 1 0 0 0 = (dy + yl) * 86400"
    by (simp only: getMtime_new_year days_before_year_step yl_def dy_def)
  show ?thesis unfolding t0 n s using db a assms(3-8) by auto
qed


lemma guessTime_three:
  "guessTime now cy mon md h mi =
     (if now - getMtime (cy - 1) mon md h mi 0 < 350 * 86400 then getMtime (cy - 1) mon md h mi 0
      else if now - getMtime cy mon md h mi 0 < 350 * 86400 then getMtime cy mon md h mi 0
      else if now - getMtime (cy + 1) mon md h mi 0 < 350 * 86400 then getMtime (cy + 1) mon md h mi 0
      else guessTime_loop now (cy + 100) (cy + 2) mon md h mi)"
proof -
  have a: "cy - 1 + 1 = cy" "cy + 1 + 1 = cy + 2" by simp_all
  show ?thesis
    unfolding guessTime_def
    apply (subst guessTime_loop.simps)
    apply (subst guessTime_loop.simps)
    apply (subst guessTime_loop.simps)
    apply (simp add: Let_def a)
    done
qed

lemma guessTime_loop_first:
  assumes "y \<le> c" "c < ul" "now - getMtime c mon md h mi 0 < 350 * 86400"
  shows "\<exists>year. y \<le> year \<and> year \<le> c
      \<and> guessTime_loop now ul y mon md h mi = getMtime year mon md h mi 0
      \<and> now - getMtime year mon md h mi 0 < 350 * 86400
      \<and> (\<forall>k. y \<le> k \<and> k < year \<longrightarrow> \<not> now - getMtime k mon md h mi 0 < 350 * 86400)"
  using assms
proof (induction now ul y mon md h mi rule: guessTime_loop.induct)
  case (1 now ul year mon md h mi)
  have lt: "year < ul" using "1.prems" by linarith
  show ?case
  proof (cases "now - getMtime year mon md h mi 0 < 350 * 86400")
    case True
    then have "guessTime_loop now ul year mon md h mi = getMtime year mon md h mi 0"
      using lt by (subst guessTime_loop.simps) (simp add: Let_def)
    with True "1.prems"(1) show ?thesis
      by (intro exI [of _ year]) simp
  next
    case False
    with "1.prems" have "year \<noteq> c" by blast
    with "1.prems"(1) have le: "year + 1 \<le> c" by linarith
    from "1.IH" [OF lt refl False le "1.prems"(2,3)]
    obtain y' where y': "year + 1 \<le> y'" "y' \<le> c"
      "guessTime_loop now ul (year + 1) mon md h mi = getMtime y' mon md h mi 0"
      "now - getMtime y' mon md h mi 0 < 350 * 86400"
      "\<forall>k. year + 1 \<le> k \<and> k < y' \<longrightarrow> \<not> now - getMtime k mon md h mi 0 < 350 * 86400"
      by blast
    have e: "guessTime_loop now ul year mon md h mi = getMtime y' mon md h mi 0"
      using lt False y'(3) by (subst guessTime_loop.simps) (simp add: Let_def)
    have "\<forall>k. year \<le> k \<and> k < y' \<longrightarrow> \<not> now - getMtime k mon md h mi 0 < 350 * 86400"
    proof (intro allI impI)
      fix k assume k: "year \<le> k \<and> k < y'"
      show "\<not> now - getMtime k mon md h mi 0 < 350 * 86400"
      proof (cases "k = year")
        case True with False show ?thesis by simp
      next
        case False
        with k have "year + 1 \<le> k \<and> k < y'" by linarith
        with y'(5) show ?thesis by blast
      qed
    qed
    with y' e show ?thesis
      by (intro exI [of _ y']) simp
  qed
qed

lemma guessTime_loop_none:
  assumes "\<forall>c. y \<le> c \<and> c < ul \<longrightarrow> \<not> now - getMtime c mon md h mi 0 < 350 * 86400"
  shows "guessTime_loop now ul y mon md h mi = 0"
  using assms
proof (induction now ul y mon md h mi rule: guessTime_loop.induct)
  case (1 now ul year mon md h mi)
  show ?case
  proof (cases "year < ul")
    case True
    with "1.prems" have f: "\<not> now - getMtime year mon md h mi 0 < 350 * 86400" by simp
    have "\<forall>c. year + 1 \<le> c \<and> c < ul \<longrightarrow> \<not> now - getMtime c mon md h mi 0 < 350 * 86400"
      using "1.prems" by simp
    from "1.IH" [OF True refl f this] True f show ?thesis
      by (subst guessTime_loop.simps) (simp add: Let_def)
  next
    case False
    then show ?thesis by (subst guessTime_loop.simps) simp
  qed
qed

lemma guessTime_calendar:
  assumes clock: "in_year now offset currentYear" "- 86400 \<le> offset" "offset \<le> 86400"
      and mon: "1 \<le> mon" "mon \<le> 12"
      and rest: "1 \<le> md" "md \<le> 31" "0 \<le> h" "h \<le> 23" "0 \<le> mi" "mi \<le> 59"
  shows "\<exists>year. currentYear - 1 \<le> year \<and> year \<le> currentYear + 1
      \<and> guessTime now currentYear mon md h mi = getMtime year mon md h mi 0
      \<and> (\<forall>y. currentYear - 1 \<le> y \<and> y < year \<longrightarrow> \<not> now - getMtime y mon md h mi 0 < 350 * 86400)
      \<and> now - guessTime now currentYear mon md h mi < 350 * 86400
      \<and> guessTime now currentYear mon md h mi \<le> now + 16 * 86400"
proof -
  define T where "T = (\<lambda>y. getMtime y mon md h mi 0)"
  define S where "S = (\<lambda>y. getMtime y 1 1 0 0 0)"
  have n0: "T (currentYear - 1) + 365 * 86400 \<le> T currentYear"
           "T currentYear \<le> T (currentYear - 1) + 366 * 86400"
    using getMtime_next_year [OF mon, of "currentYear - 1" md h mi 0] by (simp_all add: T_def)
  have n1: "T currentYear + 365 * 86400 \<le> T (currentYear + 1)"
           "T (currentYear + 1) \<le> T currentYear + 366 * 86400"
    using getMtime_next_year [OF mon, of currentYear md h mi 0] by (simp_all add: T_def)
  have r0: "T (currentYear - 1) < S currentYear"
    using getMtime_in_year [OF mon rest, of "currentYear - 1"] by (simp add: T_def S_def)
  have r2: "S (currentYear + 1) \<le> T (currentYear + 1)"
    using getMtime_in_year [OF mon rest, of "currentYear + 1"] by (simp add: T_def S_def)
  have c: "S currentYear \<le> now + offset" "now + offset < S (currentYear + 1)"
    using clock(1) by (simp_all add: in_year_def S_def)
  have g: "guessTime now currentYear mon md h mi =
     (if now - T (currentYear - 1) < 350 * 86400 then T (currentYear - 1)
      else if now - T currentYear < 350 * 86400 then T currentYear
      else if now - T (currentYear + 1) < 350 * 86400 then T (currentYear + 1)
      else guessTime_loop now (currentYear + 100) (currentYear + 2) mon md h mi)"
    unfolding T_def by (rule guessTime_three)
  have last: "now - T (currentYear + 1) < 350 * 86400"
    using r2 c clock(2,3) by linarith
  consider (a) "now - T (currentYear - 1) < 350 * 86400"
    | (b) "\<not> now - T (currentYear - 1) < 350 * 86400" "now - T currentYear < 350 * 86400"
    | (c) "\<not> now - T (currentYear - 1) < 350 * 86400" "\<not> now - T currentYear < 350 * 86400"
    by blast
  then show ?thesis
  proof cases
    case a
    have "guessTime now currentYear mon md h mi = T (currentYear - 1)" using a g by simp
    moreover have "T (currentYear - 1) \<le> now + 16 * 86400" using r0 c clock(2,3) by linarith
    ultimately show ?thesis
      using a by (intro exI [of _ "currentYear - 1"]) (simp add: T_def)
  next
    case b
    have e: "guessTime now currentYear mon md h mi = T currentYear" using b g by simp
    have "T currentYear \<le> now + 16 * 86400" using b(1) n0 by linarith
    moreover have "\<forall>y. currentYear - 1 \<le> y \<and> y < currentYear \<longrightarrow> \<not> now - T y < 350 * 86400"
    proof (intro allI impI)
      fix y assume "currentYear - 1 \<le> y \<and> y < currentYear"
      then have "y = currentYear - 1" by linarith
      with b(1) show "\<not> now - T y < 350 * 86400" by simp
    qed
    ultimately show ?thesis
      using b e by (intro exI [of _ currentYear]) (simp add: T_def)
  next
    case c
    have e: "guessTime now currentYear mon md h mi = T (currentYear + 1)" using c g last by simp
    have "T (currentYear + 1) \<le> now + 16 * 86400" using c(2) n1 by linarith
    moreover have "\<forall>y. currentYear - 1 \<le> y \<and> y < currentYear + 1 \<longrightarrow> \<not> now - T y < 350 * 86400"
    proof (intro allI impI)
      fix y assume "currentYear - 1 \<le> y \<and> y < currentYear + 1"
      then have "y = currentYear - 1 \<or> y = currentYear" by linarith
      with c show "\<not> now - T y < 350 * 86400" by blast
    qed
    ultimately show ?thesis
      using c e last by (intro exI [of _ "currentYear + 1"]) (simp add: T_def)
  qed
qed

text \<open>
  C4. \<open>guessTime\<close> returns the UTC time stamp of the first candidate year, from
  \<open>currentYear - 1\<close> upwards, whose time stamp \<open>t\<close> has \<open>now - t < 350\<close> days, whenever one
  of the hundred and one candidates has it (whatever the fields are). For a month, day,
  hour and minute in their calendar ranges, and \<open>currentYear\<close> the year of \<open>now\<close> on a clock
  at most a day off UTC, that year is one of \<open>currentYear - 1\<close>, \<open>currentYear\<close>,
  \<open>currentYear + 1\<close>, the result is less than 350 days old and it is at most 16 days
  after \<open>now\<close>.
\<close>

theorem guessTime_first_candidate:
  "(currentYear - 1 \<le> c \<and> c < currentYear + 100 \<and> now - getMtime c mon md h mi 0 < 350 * 86400
      \<longrightarrow> (\<exists>year. currentYear - 1 \<le> year \<and> year \<le> c
            \<and> guessTime now currentYear mon md h mi = getMtime year mon md h mi 0
            \<and> now - getMtime year mon md h mi 0 < 350 * 86400
            \<and> (\<forall>k. currentYear - 1 \<le> k \<and> k < year \<longrightarrow>
                    \<not> now - getMtime k mon md h mi 0 < 350 * 86400)))
   \<and> (in_year now offset currentYear \<and> - 86400 \<le> offset \<and> offset \<le> 86400
        \<and> 1 \<le> mon \<and> mon \<le> 12 \<and> 1 \<le> md \<and> md \<le> 31 \<and> 0 \<le> h \<and> h \<le> 23 \<and> 0 \<le> mi \<and> mi \<le> 59
      \<longrightarrow> (\<exists>year. currentYear - 1 \<le> year \<and> year \<le> currentYear + 1
            \<and> guessTime now currentYear mon md h mi = getMtime year mon md h mi 0
            \<and> (\<forall>y. currentYear - 1 \<le> y \<and> y < year \<longrightarrow>
                    \<not> now - getMtime y mon md h mi 0 < 350 * 86400)
            \<and> now - guessTime now currentYear mon md h mi < 350 * 86400
            \<and> guessTime now currentYear mon md h mi \<le> now + 16 * 86400))"
proof (intro conjI impI)
  assume "currentYear - 1 \<le> c \<and> c < currentYear + 100
      \<and> now - getMtime c mon md h mi 0 < 350 * 86400"
  then show "\<exists>year. currentYear - 1 \<le> year \<and> year \<le> c
            \<and> guessTime now currentYear mon md h mi = getMtime year mon md h mi 0
            \<and> now - getMtime year mon md h mi 0 < 350 * 86400
            \<and> (\<forall>k. currentYear - 1 \<le> k \<and> k < year \<longrightarrow>
                    \<not> now - getMtime k mon md h mi 0 < 350 * 86400)"
    unfolding guessTime_def by (intro guessTime_loop_first) simp_all
next
  assume "in_year now offset currentYear \<and> - 86400 \<le> offset \<and> offset \<le> 86400
        \<and> 1 \<le> mon \<and> mon \<le> 12 \<and> 1 \<le> md \<and> md \<le> 31 \<and> 0 \<le> h \<and> h \<le> 23 \<and> 0 \<le> mi \<and> mi \<le> 59"
  then show "\<exists>year. currentYear - 1 \<le> year \<and> year \<le> currentYear + 1
            \<and> guessTime now currentYear mon md h mi = getMtime year mon md h mi 0
            \<and> (\<forall>y. currentYear - 1 \<le> y \<and> y < year \<longrightarrow>
                    \<not> now - getMtime y mon md h mi 0 < 350 * 86400)
            \<and> now - guessTime now currentYear mon md h mi < 350 * 86400
            \<and> guessTime now currentYear mon md h mi \<le> now + 16 * 86400"
    by (intro guessTime_calendar [where offset = offset]) simp_all
qed

theorem guessTime_first_candidate_witness:
  "guessTime 1793574000 2026 11 23 11 34 = getMtime 2025 11 23 11 34 0
   \<and> guessTime 1793574000 2026 11 23 11 34 = 1763897640
   \<and> 1793574000 - guessTime 1793574000 2026 11 23 11 34 < 350 * 86400
   \<and> guessTime 1793574000 2026 11 23 11 34 \<le> 1793574000 + 16 * 86400"
proof -
  have ev: "getMtime 2025 11 23 11 34 0 = 1763897640" "getMtime 2026 11 23 11 34 0 = 1795433640"
    "getMtime 2027 11 23 11 34 0 = 1826969640"
    by (simp_all add: getMtime_def Date_Unix_def days_before_year_def isLeap_def daysBefore_def)
  have "in_year 1793574000 0 2026"
    by (simp add: in_year_def getMtime_def Date_Unix_def days_before_year_def isLeap_def
        daysBefore_def)
  with guessTime_first_candidate [of 2026 2026 1793574000 11 23 11 34 0]
  obtain year where y: "2026 - 1 \<le> year" "year \<le> 2026 + 1"
    "guessTime 1793574000 2026 11 23 11 34 = getMtime year 11 23 11 34 0"
    "\<forall>y. 2026 - 1 \<le> y \<and> y < year \<longrightarrow> \<not> 1793574000 - getMtime y 11 23 11 34 0 < 350 * 86400"
    "1793574000 - guessTime 1793574000 2026 11 23 11 34 < 350 * 86400"
    "guessTime 1793574000 2026 11 23 11 34 \<le> 1793574000 + 16 * 86400"
    by auto
  have "\<not> 2025 < year"
  proof
    assume "2025 < year"
    with y(4) have "\<not> 1793574000 - getMtime 2025 11 23 11 34 0 < 350 * 86400" by simp
    with ev show False by simp
  qed
  with y(1) have "year = 2025" by simp
  with y ev show ?thesis by simp
qed


section \<open>The Unix-style scanner (parseUNIXStyle)\<close>

lemma time_or_year_nat:
  assumes le: "n + k \<le> length buf"
  shows "time_or_year now cy buf (int n) (int n + int k) mon md =
     Inr (read_clock now cy mon md (take k (drop n buf)))"
proof -
  have s: "slice buf (int n) (int n + int k) = Inr (take k (drop n buf))"
    using le by (simp add: slice_def len_def)
  consider (four) "k = 4" | (five) "k = 5" | (other) "k \<noteq> 4" "k \<noteq> 5" by blast
  then show ?thesis
  proof cases
    case four
    have a: "at buf (int n + 1) = Inr (buf ! (n + 1))" "at buf (int n) = Inr (buf ! n)"
      "slice buf (int n + 2) (int n + 4) = Inr (take 2 (drop (n + 2) buf))"
      using le four by (simp_all add: at_def slice_def len_def nat_add_distrib)
    have b: "take 4 (drop n buf) ! 1 = buf ! (n + 1)" "take 4 (drop n buf) ! 0 = buf ! n"
      "drop 2 (take 4 (drop n buf)) = take 2 (drop (n + 2) buf)"
      using le four by (simp_all add: drop_take add.commute)
    show ?thesis using four le a b s
      by (simp add: time_or_year_def read_clock_def and_then_def)
  next
    case five
    have a: "at buf (int n + 2) = Inr (buf ! (n + 2))"
      "slice buf (int n) (int n + 2) = Inr (take 2 (drop n buf))"
      "slice buf (int n + 3) (int n + 5) = Inr (take 2 (drop (n + 3) buf))"
      using le five by (simp_all add: at_def slice_def len_def nat_add_distrib)
    have b: "take 5 (drop n buf) ! 2 = buf ! (n + 2)"
      "take 2 (take 5 (drop n buf)) = take 2 (drop n buf)"
      "drop 3 (take 5 (drop n buf)) = take 2 (drop (n + 3) buf)"
      using le five by (simp_all add: drop_take add.commute)
    show ?thesis using five le a b s
      by (simp add: time_or_year_def read_clock_def and_then_def)
  next
    case other
    then show ?thesis using le s
      by (simp add: time_or_year_def read_clock_def and_then_def)
  qed
qed

lemma time_or_year_token:
  assumes "0 \<le> i" "i \<le> j" "j \<le> len buf"
  shows "time_or_year now cy buf i j mon md = Inr (read_clock now cy mon md (token buf i j))"
proof -
  define n where "n = nat i"
  define k where "k = nat (j - i)"
  have n: "i = int n" using assms(1) by (simp add: n_def)
  have k: "j = int n + int k" using assms(1,2) by (simp add: n_def k_def)
  have le: "n + k \<le> length buf" using assms(3) by (simp add: len_def k n)
  have "token buf i j = take k (drop n buf)" by (simp add: token_def n_def k_def)
  then show ?thesis using time_or_year_nat [OF le] by (simp add: n k)
qed


text \<open>
  C5. In state 7 (size, month and day scanned) the token \<open>buf[i:j]\<close> that ends at the
  space \<open>buf[j]\<close> is read by width and by the place of the colon: four bytes with a colon
  at offset 1, or five with a colon at offset 2, give hour and minute, the kind
  \<open>REMOTE_MINUTE\<close> and the time of \<open>guessTime\<close>; any other token of at least four bytes
  is parsed as a year, with the kind \<open>REMOTE_DAY\<close>; the name is the rest of the line and
  the scanner goes to state 8; a shorter token leaves the scan. The line of the
  specification parses to the name README, \<open>TryCwd\<close> false, \<open>TryRetr\<close> true, size 531 and
  the time \<open>guessTime\<close> gives for January 29, 03:26, whatever \<open>now\<close> and
  \<open>currentYear\<close> are.
\<close>

theorem unix_field_time_or_year:
  "(st s = 7 \<and> 0 \<le> tok s \<and> tok s \<le> j \<and> j < len buf \<longrightarrow>
      unix_field now currentYear buf j s =
        Inr (case read_clock now currentYear (month s) (mday s) (token buf (tok s) j) of
               None \<Rightarrow> (True, s)
             | Some (kind, t) \<Rightarrow>
                 (False, s\<lparr>entry := (entry s)\<lparr>MtimeType := kind, Mtime := t,
                                               Name := drop (nat (j + 1)) buf\<rparr>,
                            st := 8\<rparr>)))
   \<and> parseUNIXStyle now currentYear
         ''-rw-r--r--   1 root     other     531 Jan 29 03:26 README''
       = Inr (Some \<lparr>RawLine = ''-rw-r--r--   1 root     other     531 Jan 29 03:26 README'',
                    Name = ''README'', TryCwd = False, TryRetr = True, Size = 531,
                    MtimeType = REMOTE_MINUTE_MTIME_TYPE,
                    Mtime = guessTime now currentYear 1 29 3 26,
                    IdType = UNKNOWN_ID_TYPE, Id = [], LinkDest = []\<rparr>)"
proof (intro conjI impI)
  assume a: "st s = 7 \<and> 0 \<le> tok s \<and> tok s \<le> j \<and> j < len buf"
  then have t: "time_or_year now currentYear buf (tok s) j (month s) (mday s)
      = Inr (read_clock now currentYear (month s) (mday s) (token buf (tok s) j))"
    by (intro time_or_year_token) simp_all
  have n: "slice_from buf (j + 1) = Inr (drop (nat (j + 1)) buf)"
    using a by (simp add: slice_from_def slice_def len_def)
  show "unix_field now currentYear buf j s =
        Inr (case read_clock now currentYear (month s) (mday s) (token buf (tok s) j) of
               None \<Rightarrow> (True, s)
             | Some (kind, t) \<Rightarrow>
                 (False, s\<lparr>entry := (entry s)\<lparr>MtimeType := kind, Mtime := t,
                                               Name := drop (nat (j + 1)) buf\<rparr>,
                            st := 8\<rparr>))"
    using a by (simp add: unix_field_def Let_def t n and_then_def split: option.splits)
next
  show "parseUNIXStyle now currentYear
         ''-rw-r--r--   1 root     other     531 Jan 29 03:26 README''
       = Inr (Some \<lparr>RawLine = ''-rw-r--r--   1 root     other     531 Jan 29 03:26 README'',
                    Name = ''README'', TryCwd = False, TryRetr = True, Size = 531,
                    MtimeType = REMOTE_MINUTE_MTIME_TYPE,
                    Mtime = guessTime now currentYear 1 29 3 26,
                    IdType = UNKNOWN_ID_TYPE, Id = [], LinkDest = []\<rparr>)"
    by (simp add: unix_defs go_defs num_defs newFTPListData_def)
qed

theorem unix_field_time_or_year_witness:
  "unix_field 1793574000 2026 ''531 Jan 29 03:26 README'' 16
     \<lparr>st = 7, tok = 11, tsize = 531, month = 1, mday = 29, entry = newFTPListData []\<rparr>
   = Inr (False,
       \<lparr>st = 8, tok = 11, tsize = 531, month = 1, mday = 29,
        entry = (newFTPListData [])\<lparr>MtimeType := REMOTE_MINUTE_MTIME_TYPE,
                  Mtime := guessTime 1793574000 2026 1 29 3 26, Name := ''README''\<rparr>\<rparr>)
   \<and> unix_field 1793574000 2026 ''512 Apr  8  2003 etc'' 16
     \<lparr>st = 7, tok = 12, tsize = 512, month = 4, mday = 8, entry = newFTPListData []\<rparr>
   = Inr (False,
       \<lparr>st = 8, tok = 12, tsize = 512, month = 4, mday = 8,
        entry = (newFTPListData [])\<lparr>MtimeType := REMOTE_DAY_MTIME_TYPE,
                  Mtime := getMtime 2003 4 8 0 0 0, Name := ''etc''\<rparr>\<rparr>)
   \<and> unix_field 1793574000 2026 ''512 Apr  8 203 etc'' 13
     \<lparr>st = 7, tok = 10, tsize = 512, month = 4, mday = 8, entry = newFTPListData []\<rparr>
   = Inr (True,
       \<lparr>st = 7, tok = 10, tsize = 512, month = 4, mday = 8, entry = newFTPListData []\<rparr>)"
  using
    unix_field_time_or_year [of
      "\<lparr>st = 7, tok = 11, tsize = 531, month = 1, mday = 29, entry = newFTPListData []\<rparr>"
      16 "''531 Jan 29 03:26 README''" 1793574000 2026]
    unix_field_time_or_year [of
      "\<lparr>st = 7, tok = 12, tsize = 512, month = 4, mday = 8, entry = newFTPListData []\<rparr>"
      16 "''512 Apr  8  2003 etc''" 1793574000 2026]
    unix_field_time_or_year [of
      "\<lparr>st = 7, tok = 10, tsize = 512, month = 4, mday = 8, entry = newFTPListData []\<rparr>"
      13 "''512 Apr  8 203 etc''" 1793574000 2026]
  by (simp add: len_def token_def read_clock_def num_defs)

section \<open>The MS-DOS year (parseMSDOS)\<close>

text \<open>
  C9. A parsed year \<open>y\<close> below 50 (and not below -1000, as every parsed two-digit year
  is) becomes \<open>y + 2000\<close>, and a year from 50 to 999 becomes \<open>y + 1900\<close>: a two-digit year
  lands in 1950..2049 and keeps its last two digits, \<open>00\<close> gives 2000 and \<open>76\<close> gives
  1976, also through the whole parser.
\<close>

theorem msdos_year_window:
  "(- 1000 \<le> y \<and> y < 50 \<longrightarrow> msdos_year y = y + 2000)
   \<and> (50 \<le> y \<and> y < 1000 \<longrightarrow> msdos_year y = y + 1900)
   \<and> (0 \<le> y \<and> y < 100 \<longrightarrow>
        1950 \<le> msdos_year y \<and> msdos_year y \<le> 2049 \<and> msdos_year y mod 100 = y)
   \<and> msdos_year (parseInt ''00'') = 2000
   \<and> msdos_year (parseInt ''76'') = 1976
   \<and> parseMSDOS ''04-27-00  09:09PM       <DIR>          licensed''
       = Inr (Some \<lparr>RawLine = ''04-27-00  09:09PM       <DIR>          licensed'',
                    Name = ''licensed'', TryCwd = True, TryRetr = False, Size = 0,
                    MtimeType = REMOTE_MINUTE_MTIME_TYPE, Mtime = getMtime 2000 4 27 21 9 0,
                    IdType = UNKNOWN_ID_TYPE, Id = [], LinkDest = []\<rparr>)
   \<and> parseMSDOS ''04-14-76  03:47PM                  589 readme.htm''
       = Inr (Some \<lparr>RawLine = ''04-14-76  03:47PM                  589 readme.htm'',
                    Name = ''readme.htm'', TryCwd = False, TryRetr = True, Size = 589,
                    MtimeType = REMOTE_MINUTE_MTIME_TYPE, Mtime = getMtime 1976 4 14 15 47 0,
                    IdType = UNKNOWN_ID_TYPE, Id = [], LinkDest = []\<rparr>)"
proof (intro conjI impI)
  show "msdos_year (parseInt ''00'') = 2000" by (simp add: msdos_year_def num_defs)
  show "msdos_year (parseInt ''76'') = 1976" by (simp add: msdos_year_def num_defs)
  show "parseMSDOS ''04-27-00  09:09PM       <DIR>          licensed''
       = Inr (Some \<lparr>RawLine = ''04-27-00  09:09PM       <DIR>          licensed'',
                    Name = ''licensed'', TryCwd = True, TryRetr = False, Size = 0,
                    MtimeType = REMOTE_MINUTE_MTIME_TYPE, Mtime = getMtime 2000 4 27 21 9 0,
                    IdType = UNKNOWN_ID_TYPE, Id = [], LinkDest = []\<rparr>)"
    by (simp add: parseMSDOS_def go_defs num_defs walk_defs newFTPListData_def)
  show "parseMSDOS ''04-14-76  03:47PM                  589 readme.htm''
       = Inr (Some \<lparr>RawLine = ''04-14-76  03:47PM                  589 readme.htm'',
                    Name = ''readme.htm'', TryCwd = False, TryRetr = True, Size = 589,
                    MtimeType = REMOTE_MINUTE_MTIME_TYPE, Mtime = getMtime 1976 4 14 15 47 0,
                    IdType = UNKNOWN_ID_TYPE, Id = [], LinkDest = []\<rparr>)"
    by (simp add: parseMSDOS_def go_defs num_defs walk_defs newFTPListData_def)
next
  assume a: "0 \<le> y \<and> y < 100"
  have "(y + 100 * 20) mod 100 = y mod 100" "(y + 100 * 19) mod 100 = y mod 100"
    by (rule mod_mult_self2)+
  moreover have "y mod 100 = y" using a by simp
  ultimately have "(y + 2000) mod 100 = y" "(y + 1900) mod 100 = y" by simp_all
  with a show "msdos_year y mod 100 = y"
    by (simp add: msdos_year_def Let_def)
qed (auto simp: msdos_year_def Let_def)

theorem msdos_year_window_witness:
  "msdos_year 0 = 2000 \<and> msdos_year 49 = 2049 \<and> msdos_year 50 = 1950 \<and> msdos_year 76 = 1976
   \<and> msdos_year 99 = 1999 \<and> msdos_year 999 = 2899"
  using msdos_year_window [of 0] msdos_year_window [of 49] msdos_year_window [of 50]
    msdos_year_window [of 76] msdos_year_window [of 99] msdos_year_window [of 999]
  by simp

section \<open>Lines on which the parsers panic or cut a field (ParseLine, parseEPLF, List)\<close>

text \<open>
  C10. \<open>ParseLine\<close> is not total: on a line whose first byte selects the Unix-style
  parser and is followed by white space only, the trimmed line has one byte and
  \<open>buf[1]\<close> is out of range; on a line with white space before the semicolon, the index
  of the semicolon in the untrimmed line exceeds the length of the trimmed line and
  \<open>buf[:i]\<close> is out of range. Both hold whatever \<open>now\<close> and \<open>currentYear\<close> are.
\<close>

theorem ParseLine_panics:
  "ParseLine now currentYear ''- '' = Inl IndexOutOfRange
   \<and> ParseLine now currentYear [CHR ''d'', CHR 0x0D, CHR 0x0A] = Inl IndexOutOfRange
   \<and> ParseLine now currentYear ''  ;'' = Inl SliceOutOfRange
   \<and> ParseLine now currentYear ''   A;1'' = Inl SliceOutOfRange"
  by (simp add: ParseLine_def unix_defs parseMultinet_def go_defs num_defs newFTPListData_def)

text \<open>
  C3. The identifier of an \<open>i\<close> fact is \<open>buf[i+1:j-i-1]\<close>, not \<open>buf[i+1:j]\<close>: in the
  first line of the repository's test the identifier 9872342.32142 loses its last two
  bytes, and an \<open>i\<close> fact that is not the first fact of its line makes the slice panic.
\<close>

theorem parseEPLF_id_cut:
  "parseEPLF (''+i9872342.32142,m1229473595,/,'' @ CHR 0x09 # ''pub'')
     = Inr (Some \<lparr>RawLine = ''+i9872342.32142,m1229473595,/,'' @ CHR 0x09 # ''pub'',
                  Name = ''pub'', TryCwd = True, TryRetr = False, Size = 0,
                  MtimeType = LOCAL_MTIME_TYPE, Mtime = 1229473595,
                  IdType = FULL_ID_TYPE, Id = ''9872342.321'', LinkDest = []\<rparr>)
   \<and> parseEPLF (''+/,i1,'' @ CHR 0x09 # ''x'') = Inl SliceOutOfRange"
  by (simp add: parseEPLF_def parseEPLF_loop.simps parseEPLF_fact_def go_defs num_defs
      newFTPListData_def)

text \<open>
  C2. A line on which \<open>ParseLine\<close> panics ends the listing: \<open>List\<close> returns nothing, the
  entries of the lines before and after it included. A line for which \<open>ParseLine\<close>
  returns \<open>nil\<close> does not end the listing; the \<open>nil\<close> pointer is appended to the entries.
\<close>

theorem List_unparsable_line:
  "List 1793574000 2026 None
     [(''dr-xr-xr-x   2 root     other        512 Apr  8  2003 etc'' @ [CHR 0x0A], None),
      ([CHR ''-'', CHR 0x0A], None),
      (''-rw-r--r--   1 root     other     531 Jan 29  2003 README'' @ [CHR 0x0A], None)]
   = Inl IndexOutOfRange
   \<and> List 1793574000 2026 None
     [(''total 8'' @ [CHR 0x0A], None),
      (''dr-xr-xr-x   2 root     other        512 Apr  8  2003 etc'' @ [CHR 0x0A], None)]
   = Inr ([None,
           Some \<lparr>RawLine = ''dr-xr-xr-x   2 root     other        512 Apr  8  2003 etc''
                            @ [CHR 0x0A],
                 Name = ''etc'', TryCwd = True, TryRetr = False, Size = 512,
                 MtimeType = REMOTE_DAY_MTIME_TYPE, Mtime = getMtime 2003 4 8 0 0 0,
                 IdType = UNKNOWN_ID_TYPE, Id = [], LinkDest = []\<rparr>], None)"
  by (simp add: List_def ParseLine_def unix_defs go_defs num_defs newFTPListData_def)

text \<open>
  A line for which \<open>ParseLine\<close> returns \<open>nil\<close> does not end the listing: \<open>nil\<close> is
  appended and the loop goes on.
\<close>

lemma List_loop_nil:
  "ParseLine now currentYear line = Inr None \<Longrightarrow>
     List_loop now currentYear ((line, None) # reads) entries
       = List_loop now currentYear reads (entries @ [None])"
  by (simp add: and_then_def)

section \<open>Passive mode (pasv)\<close>


















section \<open>What the sub-parsers return on a malformed line\<close>

lemma and_then_entry: "(\<And>x. k x \<noteq> Inr None) \<Longrightarrow> and_then m k \<noteq> Inr None"
  by (cases m) (simp_all add: and_then_def)

lemma or_return_entry: "(\<And>x. k x \<noteq> Inr None) \<Longrightarrow> or_return m (Some r) k \<noteq> Inr None"
  by (cases m) (simp_all add: or_return_def and_then_def)

lemma if_entry:
  "(c \<Longrightarrow> a \<noteq> Inr None) \<Longrightarrow> (\<not> c \<Longrightarrow> b \<noteq> Inr None) \<Longrightarrow> (if c then a else b) \<noteq> Inr None"
  by simp

lemma pair_entry: "(\<And>a b. f a b \<noteq> Inr None) \<Longrightarrow> case_prod f x \<noteq> Inr None"
  by (cases x) simp

lemmas entry_intros = and_then_entry or_return_entry if_entry pair_entry

lemma parseUNIXStyle_entry: "parseUNIXStyle now cy raw \<noteq> Inr None"
  unfolding parseUNIXStyle_def Let_def
  by (intro entry_intros) simp_all

lemma parseMultinet_entry: "parseMultinet raw i \<noteq> Inr None"
  unfolding parseMultinet_def Let_def
  by (intro entry_intros) simp_all

lemma parseMSDOS_entry: "parseMSDOS raw \<noteq> Inr None"
  unfolding parseMSDOS_def Let_def
  by (intro entry_intros) simp_all

lemma token_snoc:
  assumes "0 \<le> i" "i \<le> j" "j < len buf"
  shows "token buf i (j + 1) = token buf i j @ [buf ! nat j]"
proof -
  define n where "n = nat i"
  define k where "k = nat (j - i)"
  have i: "i = int n" and j: "j = int n + int k" using assms by (simp_all add: n_def k_def)
  have lt: "k < length (drop n buf)" using assms(3) by (simp add: len_def i j)
  have "take (Suc k) (drop n buf) = take k (drop n buf) @ [drop n buf ! k]"
    using lt by (rule take_Suc_conv_app_nth)
  moreover have "drop n buf ! k = buf ! (n + k)" using lt by simp
  ultimately show ?thesis
    by (simp add: token_def i j nat_add_distrib)
qed

lemma token_empty: "token buf i i = []"
  by (simp add: token_def)

lemma parseEPLF_fact_unparsable:
  assumes "0 \<le> i" "i < j" "j < len buf"
      and "buf ! nat i = CHR ''s'' \<and> \<not> snd (ParseUint 64 (token buf (i + 1) j))
         \<or> buf ! nat i = CHR ''m'' \<and> \<not> snd (ParseInt 64 (token buf (i + 1) j))"
  shows "parseEPLF_fact buf i j fdata = Inr None"
proof -
  have a: "at buf i = Inr (buf ! nat i)" using assms(1-3) by (simp add: at_def)
  have s: "slice buf (i + 1) j = Inr (token buf (i + 1) j)"
    using assms(1-3) by (simp add: slice_def token_def)
  from assms(4) show ?thesis
    by (auto simp: parseEPLF_fact_def and_then_def a s split: prod.splits)
qed

lemma parseEPLF_fact_None:
  assumes "parseEPLF_fact buf i j fdata = Inr None"
  shows "0 \<le> i \<and> i < j \<and> j \<le> len buf
      \<and> (buf ! nat i = CHR ''s'' \<and> \<not> snd (ParseUint 64 (token buf (i + 1) j))
         \<or> buf ! nat i = CHR ''m'' \<and> \<not> snd (ParseInt 64 (token buf (i + 1) j)))"
proof -
  from assms obtain c where c: "at buf i = Inr c"
    by (cases "at buf i") (simp_all add: parseEPLF_fact_def and_then_def)
  then have i: "0 \<le> i" "i < len buf" "c = buf ! nat i"
    by (auto simp: at_def split: if_splits)
  from assms c have sm: "c = CHR ''s'' \<or> c = CHR ''m''"
    by (auto simp: parseEPLF_fact_def and_then_def split: if_splits sum.splits)
  from assms c sm obtain digits where d: "slice buf (i + 1) j = Inr digits"
    by (cases "slice buf (i + 1) j") (auto simp: parseEPLF_fact_def and_then_def)
  then have ij: "i + 1 \<le> j" "j \<le> len buf" "digits = token buf (i + 1) j"
    by (auto simp: slice_def token_def split: if_splits)
  from assms c d sm
  have "c = CHR ''s'' \<and> \<not> snd (ParseUint 64 digits) \<or> c = CHR ''m'' \<and> \<not> snd (ParseInt 64 digits)"
    by (auto simp: parseEPLF_fact_def and_then_def split: if_splits prod.splits)
  then show ?thesis using i ij by auto
qed

lemma in_fact_start: "in_fact buf 1 1"
  by (simp add: in_fact_def token_empty)

lemma in_fact_next:
  assumes "in_fact buf i j" "j < len buf" "buf ! nat j \<noteq> CHR 0x09"
  shows "buf ! nat j = CHR '','' \<Longrightarrow> in_fact buf (j + 1) (j + 1)"
    and "buf ! nat j \<noteq> CHR '','' \<Longrightarrow> in_fact buf i (j + 1)"
proof -
  have b: "1 \<le> i" "i \<le> j" using assms(1) by (simp_all add: in_fact_def)
  have t1: "token buf 1 (j + 1) = token buf 1 j @ [buf ! nat j]"
    using b assms(2) by (intro token_snoc) simp_all
  have ti: "token buf i (j + 1) = token buf i j @ [buf ! nat j]"
    using b assms(2) by (intro token_snoc) simp_all
  show "buf ! nat j = CHR '','' \<Longrightarrow> in_fact buf (j + 1) (j + 1)"
    using assms b by (simp add: in_fact_def token_empty t1)
  show "buf ! nat j \<noteq> CHR '','' \<Longrightarrow> in_fact buf i (j + 1)"
    using assms b by (simp add: in_fact_def t1 ti)
qed

lemma parseEPLF_loop_None:
  "parseEPLF_loop buf i j fdata = Inr None \<Longrightarrow> in_fact buf i j \<Longrightarrow>
     \<exists>i j. unparsable_number buf i j"
proof (induction buf i j fdata rule: parseEPLF_loop.induct)
  case (1 buf i j fdata)
  note none = "1.prems"(1) and inv = "1.prems"(2)
  from none have lt: "j < len buf"
    by (subst (asm) parseEPLF_loop.simps) (simp split: if_splits)
  have j0: "0 \<le> j" using inv by (simp add: in_fact_def)
  then have bj: "at buf j = Inr (buf ! nat j)" using lt by (simp add: at_def)
  have notab: "buf ! nat j \<noteq> CHR 0x09"
  proof
    assume "buf ! nat j = CHR 0x09"
    with none lt bj show False
      by (subst (asm) parseEPLF_loop.simps) (simp add: and_then_def split: sum.splits)
  qed
  show ?case
  proof (cases "buf ! nat j = CHR '',''")
    case True
    show ?thesis
    proof (cases "parseEPLF_fact buf i j fdata")
      case (Inl e)
      with none lt bj notab True show ?thesis
        by (subst (asm) parseEPLF_loop.simps) simp
    next
      case (Inr r)
      show ?thesis
      proof (cases r)
        case None
        with Inr have "parseEPLF_fact buf i j fdata = Inr None" by simp
        from parseEPLF_fact_None [OF this] inv lt True
        have "unparsable_number buf i j"
          by (simp add: unparsable_number_def eplf_fact_def in_fact_def)
        then show ?thesis by blast
      next
        case (Some fdata')
        with none lt bj notab True Inr
        have "parseEPLF_loop buf (j + 1) (j + 1) fdata' = Inr None"
          by (subst (asm) parseEPLF_loop.simps) simp
        moreover have "in_fact buf (j + 1) (j + 1)"
          using in_fact_next(1) [OF inv lt notab True] .
        ultimately show ?thesis
          using "1.IH"(1) [OF lt bj notab True Inr Some] by blast
      qed
    qed
  next
    case False
    with none lt bj notab
    have "parseEPLF_loop buf i (j + 1) fdata = Inr None"
      by (subst (asm) parseEPLF_loop.simps) simp
    moreover have "in_fact buf i (j + 1)"
      using in_fact_next(2) [OF inv lt notab False] .
    ultimately show ?thesis
      using "1.IH"(2) [OF lt bj notab False] by blast
  qed
qed


lemma token_mem:
  assumes "0 \<le> i" "i \<le> k" "k < j" "j \<le> len buf"
  shows "buf ! nat k \<in> set (token buf i j)"
proof -
  define n where "n = nat i"
  define m where "m = nat (k - i)"
  have k: "nat k = n + m" using assms(1,2) by (simp add: n_def m_def)
  have lt: "m < nat (j - i)" using assms(2,3) by (simp add: m_def)
  have le: "n + m < length buf" using assms by (simp add: len_def n_def m_def)
  have "token buf i j ! m = buf ! (n + m)"
    using lt le by (simp add: token_def n_def [symmetric])
  moreover have "m < length (token buf i j)"
    using lt le assms by (simp add: token_def n_def [symmetric] len_def)
  ultimately show ?thesis unfolding k by (metis nth_mem)
qed

lemma parseEPLF_loop_no_entry:
  "unparsable_number buf i j \<Longrightarrow> in_fact buf i0 j0 \<Longrightarrow> j0 \<le> j \<Longrightarrow> i0 = i \<or> j0 < i \<Longrightarrow>
     parseEPLF_loop buf i0 j0 fdata \<noteq> Inr (Some e)"
proof (induction buf i0 j0 fdata rule: parseEPLF_loop.induct)
  case (1 buf i0 j0 fdata)
  note bad = "1.prems"(1) and inv = "1.prems"(2) and le = "1.prems"(3) and pos = "1.prems"(4)
  have f: "1 \<le> i" "i \<le> j" "j < len buf" "buf ! nat j = CHR '',''"
    "i = 1 \<or> buf ! nat (i - 1) = CHR '',''"
    "CHR '','' \<notin> set (token buf i j)" "CHR 0x09 \<notin> set (token buf 1 j)"
    using bad by (simp_all add: unparsable_number_def eplf_fact_def)
  have tag: "buf ! nat i = CHR ''s'' \<and> \<not> snd (ParseUint 64 (token buf (i + 1) j))
         \<or> buf ! nat i = CHR ''m'' \<and> \<not> snd (ParseInt 64 (token buf (i + 1) j))"
    using bad by (simp add: unparsable_number_def)
  have "i \<noteq> j" using tag f(4) by auto
  with f(2) have ij: "i < j" by simp
  have b0: "1 \<le> i0" "i0 \<le> j0" using inv by (simp_all add: in_fact_def)
  have lt: "j0 < len buf" using le f(3) by simp
  have bj: "at buf j0 = Inr (buf ! nat j0)" using lt b0 by (simp add: at_def)
  have notab: "buf ! nat j0 \<noteq> CHR 0x09"
  proof (cases "j0 = j")
    case True with f(4) show ?thesis by simp
  next
    case False
    with le have "j0 < j" by simp
    then have "buf ! nat j0 \<in> set (token buf 1 j)"
      using b0 f(3) by (intro token_mem) simp_all
    with f(7) show ?thesis by auto
  qed
  show ?case
  proof (cases "j0 = j")
    case True
    with pos ij have "i0 = i" by simp
    have "parseEPLF_fact buf i j fdata = Inr None"
      using f(1) ij f(3) tag by (intro parseEPLF_fact_unparsable) simp_all
    with True \<open>i0 = i\<close> lt bj notab f(4) show ?thesis
      by (subst parseEPLF_loop.simps) simp
  next
    case False
    with le have j0j: "j0 < j" by simp
    show ?thesis
    proof (cases "buf ! nat j0 = CHR '',''")
      case True
      have before: "j0 < i"
      proof (rule ccontr)
        assume "\<not> j0 < i"
        then have "buf ! nat j0 \<in> set (token buf i j)"
          using j0j f(1,3) by (intro token_mem) simp_all
        with True f(6) show False by simp
      qed
      show ?thesis
      proof (cases "parseEPLF_fact buf i0 j0 fdata")
        case (Inl x)
        with lt bj notab True show ?thesis
          by (subst parseEPLF_loop.simps) simp
      next
        case (Inr r)
        show ?thesis
        proof (cases r)
          case None
          with Inr lt bj notab True show ?thesis
            by (subst parseEPLF_loop.simps) simp
        next
          case (Some fdata')
          have "in_fact buf (j0 + 1) (j0 + 1)"
            using in_fact_next(1) [OF inv lt notab True] .
          moreover have "j0 + 1 \<le> j" "j0 + 1 = i \<or> j0 + 1 < i" using j0j before by auto
          ultimately have "parseEPLF_loop buf (j0 + 1) (j0 + 1) fdata' \<noteq> Inr (Some e)"
            using "1.IH"(1) [OF lt bj notab True Inr Some] bad by blast
          with Inr Some lt bj notab True show ?thesis
            by (subst parseEPLF_loop.simps) simp
        qed
      qed
    next
      case False
      have "i0 = i \<or> j0 + 1 < i"
      proof (cases "i0 = i")
        case True then show ?thesis by simp
      next
        case ne: False
        with pos have "j0 < i" by simp
        moreover have "j0 + 1 \<noteq> i"
        proof
          assume e: "j0 + 1 = i"
          with b0 have "i \<noteq> 1" by simp
          with f(5) e have "buf ! nat j0 = CHR '',''" by auto
          with False show False by simp
        qed
        ultimately show ?thesis by simp
      qed
      moreover have "in_fact buf i0 (j0 + 1)"
        using in_fact_next(2) [OF inv lt notab False] .
      moreover have "j0 + 1 \<le> j" using j0j by simp
      ultimately have "parseEPLF_loop buf i0 (j0 + 1) fdata \<noteq> Inr (Some e)"
        using "1.IH"(2) [OF lt bj notab False] bad by blast
      with lt bj notab False show ?thesis
        by (subst parseEPLF_loop.simps) simp
    qed
  qed
qed


text \<open>
  C1, as the code has it. The Unix-style, VMS/MultiNet and MS-DOS parsers never report a
  failed parse: whenever they return, they return an entry. The EPLF parser returns no
  entry only for a line that has, before any tab, a fact with the tag \<open>s\<close> or \<open>m\<close> whose
  digits do not parse, and for such a line it never returns an entry.
\<close>

theorem sub_parsers_entry:
  "parseUNIXStyle now currentYear raw \<noteq> Inr None
   \<and> parseMultinet raw k \<noteq> Inr None
   \<and> parseMSDOS raw \<noteq> Inr None
   \<and> (parseEPLF raw = Inr None \<longrightarrow> (\<exists>i j. unparsable_number (Trim raw blanks) i j))
   \<and> ((\<exists>i j. unparsable_number (Trim raw blanks) i j) \<longrightarrow> (\<forall>e. parseEPLF raw \<noteq> Inr (Some e)))"
proof (intro conjI impI allI)
  show "parseUNIXStyle now currentYear raw \<noteq> Inr None" by (rule parseUNIXStyle_entry)
  show "parseMultinet raw k \<noteq> Inr None" by (rule parseMultinet_entry)
  show "parseMSDOS raw \<noteq> Inr None" by (rule parseMSDOS_entry)
next
  assume "parseEPLF raw = Inr None"
  then show "\<exists>i j. unparsable_number (Trim raw blanks) i j"
    unfolding parseEPLF_def by (rule parseEPLF_loop_None) (rule in_fact_start)
next
  fix e
  assume "\<exists>i j. unparsable_number (Trim raw blanks) i j"
  then obtain i j where bad: "unparsable_number (Trim raw blanks) i j" by blast
  then have "1 \<le> i" "i \<le> j" by (simp_all add: unparsable_number_def eplf_fact_def)
  then have "1 \<le> j" "1 = i \<or> 1 < i" by auto
  with bad show "parseEPLF raw \<noteq> Inr (Some e)"
    unfolding parseEPLF_def by (intro parseEPLF_loop_no_entry [OF bad in_fact_start])
qed

theorem sub_parsers_entry_witness:
  "parseEPLF ''+s10x,r,'' = Inr None
   \<and> (\<exists>i j. unparsable_number (Trim ''+s10x,r,'' blanks) i j)
   \<and> unparsable_number (Trim ''+r,s10x,'' blanks) 3 7
   \<and> (\<forall>e. parseEPLF ''+r,s10x,'' \<noteq> Inr (Some e))"
proof -
  have u: "unparsable_number (Trim ''+r,s10x,'' blanks) 3 7"
    by (simp add: unparsable_number_def eplf_fact_def token_def go_defs num_defs)
  have n: "parseEPLF ''+s10x,r,'' = Inr None"
    by (simp add: parseEPLF_def parseEPLF_loop.simps parseEPLF_fact_def go_defs num_defs)
  from n sub_parsers_entry [of 0 0 "''+s10x,r,''" 0]
  have "\<exists>i j. unparsable_number (Trim ''+s10x,r,'' blanks) i j" by blast
  moreover from u sub_parsers_entry [of 0 0 "''+r,s10x,''" 0]
  have "\<forall>e. parseEPLF ''+r,s10x,'' \<noteq> Inr (Some e)" by blast
  ultimately show ?thesis using u n by blast
qed

text \<open>
  C1, as stated, fails: a VMS line cut before its date gives an entry with a name and no
  time; an MS-DOS line whose size has a letter gives an entry of size 0, and one whose
  size is out of range an entry with the largest size.
\<close>

theorem sub_parsers_partial_entry:
  "parseMultinet ''CORE.DIR;1'' 8
     = Inr (Some \<lparr>RawLine = ''CORE.DIR;1'', Name = ''CORE'', TryCwd = True, TryRetr = False,
                  Size = 0, MtimeType = UNKNOWN_MTIME_TYPE, Mtime = zero_Time,
                  IdType = UNKNOWN_ID_TYPE, Id = [], LinkDest = []\<rparr>)
   \<and> parseMSDOS ''04-14-99  03:47PM                  5x9 readme.htm''
     = Inr (Some \<lparr>RawLine = ''04-14-99  03:47PM                  5x9 readme.htm'',
                  Name = ''readme.htm'', TryCwd = False, TryRetr = True, Size = 0,
                  MtimeType = REMOTE_MINUTE_MTIME_TYPE, Mtime = getMtime 1999 4 14 15 47 0,
                  IdType = UNKNOWN_ID_TYPE, Id = [], LinkDest = []\<rparr>)
   \<and> parseMSDOS ''04-14-99  03:47PM 18446744073709551616 readme.htm''
     = Inr (Some \<lparr>RawLine = ''04-14-99  03:47PM 18446744073709551616 readme.htm'',
                  Name = ''readme.htm'', TryCwd = False, TryRetr = True,
                  Size = 18446744073709551615,
                  MtimeType = REMOTE_MINUTE_MTIME_TYPE, Mtime = getMtime 1999 4 14 15 47 0,
                  IdType = UNKNOWN_ID_TYPE, Id = [], LinkDest = []\<rparr>)"
  by (simp add: parseMultinet_def parseMSDOS_def go_defs num_defs walk_defs newFTPListData_def)

end
